theory Spec2Isabelle
  imports Main
begin

section \<open>The EVC-Map translator of the Adtran OLT adapter\<close>

text \<open>
  A shallow embedding of \<^verbatim>\<open>voltha/adapters/adtran_olt/flow/evc_map.py\<close>. The class
  \<^verbatim>\<open>EVCMap\<close> becomes a record, its methods become functions that take the descriptor and
  the world (the circuit objects and the log of requests submitted to the device) and return
  the outcome together with the updated descriptor and world. A raised exception is the
  \<open>Inl\<close> branch of the outcome; the state returned with it is the state the exception
  leaves behind.
\<close>

subsection \<open>Formatting of values into text\<close>

text \<open>Python's \<^verbatim>\<open>'{}'.format(v)\<close> for an integer, a string and \<^verbatim>\<open>None\<close>.\<close>

definition digit_char :: "nat \<Rightarrow> char" where
  "digit_char n = hd (drop n ''0123456789'')"

function str_nat :: "nat \<Rightarrow> string" where
  "str_nat n =
     (if n < 10 then [digit_char n] else str_nat (n div 10) @ [digit_char (n mod 10)])"
  by pat_completeness auto
termination
  by (relation "measure id") auto

declare str_nat.simps [simp del]

definition str_int :: "int \<Rightarrow> string" where
  "str_int i = (if i < 0 then CHR ''-'' # str_nat (nat (- i)) else str_nat (nat i))"

definition fmt_int :: "int option \<Rightarrow> string" where
  "fmt_int v = (case v of None \<Rightarrow> ''None'' | Some i \<Rightarrow> str_int i)"

definition fmt_str :: "string option \<Rightarrow> string" where
  "fmt_str v = (case v of None \<Rightarrow> ''None'' | Some s \<Rightarrow> s)"

subsection \<open>Exceptions, requests and responses\<close>

datatype exn =
    ValueError
  | NotImplementedError
  | IndexError
  | AttributeError
  | TransportError string

text \<open>
  One call of \<^verbatim>\<open>edit_config(xml, default_operation=..., lock_timeout=30)\<close>, and what it
  yields: a result object with \<^verbatim>\<open>ok\<close> and \<^verbatim>\<open>error\<close>, or an exception. The device may answer
  the same request differently at different times, so the client is a function of the
  requests submitted before and of the request.
\<close>

record request =
  xml :: string
  default_operation :: "string option"
  lock_timeout :: nat

record results =
  ok :: bool
  error :: string

type_synonym netconf_client = "request list \<Rightarrow> request \<Rightarrow> exn + results"

subsection \<open>The circuit-connection enumeration\<close>

datatype EvcConnection = NO_EVC_CONNECTION | EVC | DISCARD

definition EvcConnection_DEFAULT :: EvcConnection where
  "EvcConnection_DEFAULT = NO_EVC_CONNECTION"

datatype PriorityOption = INHERIT_PRIORITY | EXPLICIT_PRIORITY

text \<open>\<^verbatim>\<open>EvcConnection.xml(value)\<close>, with both tests on \<^verbatim>\<open>DISCARD\<close> as the source has them.\<close>

definition EvcConnection_xml :: "EvcConnection option \<Rightarrow> exn + string" where
  "EvcConnection_xml value0 =
     (let value = (case value0 of None \<Rightarrow> EvcConnection_DEFAULT | Some v \<Rightarrow> v) in
      if value = DISCARD then Inr ''<no-evc-connection/>''
      else if value = DISCARD then Inr ''discard/''
      else Inl ValueError)"

subsection \<open>The collaborators: port topology, flow rule, circuit\<close>

text \<open>
  The classes of the collaborators are not part of this file's source; each is a record of
  what \<^verbatim>\<open>evc_map.py\<close> reads from it or writes to it. The fields of a flow rule carry the
  prefix \<open>flow_\<close>, so that the descriptor's private fields (\<^verbatim>\<open>_eth_type\<close>, ...) keep the
  source's names without the leading underscore.
\<close>

text \<open>
  The channel table: \<^verbatim>\<open>pon_port.gem_ids(...)\<close> yields a dictionary from the subscriber
  unit's id to its channel ids (an association list, in the order \<^verbatim>\<open>iteritems()\<close> visits
  it); the decoder may replace it by the empty \<^verbatim>\<open>set()\<close>, which has no \<^verbatim>\<open>iteritems\<close>.
\<close>

datatype gem_table = Gem_dict "(int \<times> int list) list" | Gem_empty_set

record pon_port =
  pon_gem_ids :: "bool \<Rightarrow> (int \<times> int list) list"

record handler =
  is_pon_port :: "int \<Rightarrow> bool"
  is_uni_port :: "int \<Rightarrow> bool"
  get_port_name :: "int \<Rightarrow> string option"
  get_southbound_port :: "int \<Rightarrow> pon_port option"
  netconf_client :: netconf_client

record flow_entry =
  flow_handler :: handler
  flow_in_port :: int
  flow_id :: int
  flow_eth_type :: "int option"
  flow_ip_protocol :: "int option"
  flow_ipv4_dst :: "int option"
  flow_udp_dst :: "int option"
  flow_udp_src :: "int option"
  flow_inner_vid :: "int option"
  flow_push_vlan_id :: "int list"
  flow_push_vlan_tpid :: "int list"
  pop_vlan :: int

datatype Men2UniManipulation = SYMMETRIC | POP_OUT_TAG_ONLY

datatype SwitchingMethod = SINGLE_TAGGED | DOUBLE_TAGGED

text \<open>
  Module-level names that the source imports from files that are not part of it: the values
  of \<^verbatim>\<open>FlowEntry.EtherType.IPv4\<close>, \<^verbatim>\<open>FlowEntry.EtherType.EAPOL\<close> and
  \<^verbatim>\<open>FlowEntry.IpProtocol.UDP\<close>, and \<^verbatim>\<open>Onu.gem_id_to_gvid\<close>. They are parameters.
\<close>

record externals =
  EtherType_IPv4 :: int
  EtherType_EAPOL :: int
  IpProtocol_UDP :: int
  gem_id_to_gvid :: "int \<Rightarrow> int"

text \<open>
  The circuit (class \<^verbatim>\<open>EVC\<close>, which is not in the source): its name, the attributes that
  \<^verbatim>\<open>_decode\<close> writes, its own flow entry, and its collection of descriptors. The spec: the
  circuit owns a collection of descriptors keyed by name. A descriptor is an object, stood
  for by its identity \<open>ident\<close>; the key is the value of its \<^verbatim>\<open>name\<close> property.
\<close>

record evc =
  circuit_name :: string
  ce_vlan_preservation :: bool
  men_to_uni_tag_manipulation :: Men2UniManipulation
  switching_method :: SwitchingMethod
  stpid :: int
  flow_entry :: flow_entry
  evc_maps :: "string option \<rightharpoonup> nat"

text \<open>
  Modelled from the spec: \<^verbatim>\<open>EVC.add_evc_map\<close>, which is not in the source. The spec: on
  success the descriptor is registered with the circuit, in the collection keyed by name.
\<close>

definition add_evc_map :: "string option \<Rightarrow> nat \<Rightarrow> evc \<Rightarrow> evc" where
  "add_evc_map nm i c = c\<lparr>evc_maps := (evc_maps c)(nm \<mapsto> i)\<rparr>"

text \<open>
  Modelled from the spec: \<^verbatim>\<open>EVC.remove_evc_map\<close>, which is not in the source. The spec:
  the descriptor is deregistered from the circuit's descriptor collection, which then no
  longer contains it.
\<close>

definition remove_evc_map :: "string option \<Rightarrow> nat \<Rightarrow> evc \<Rightarrow> evc" where
  "remove_evc_map nm i c = c\<lparr>evc_maps := (evc_maps c)(nm := None)\<rparr>"

subsection \<open>The descriptor and the world\<close>

record evc_map =
  ident :: nat
  flow :: "flow_entry option"
  evc :: "nat option"
  gem_ids :: "gem_table option"
  is_ingress_map :: bool
  installed :: bool
  status_message :: "string option"
  name :: "string option"
  enabled :: bool
  uni_port :: "string option"
  evc_connection :: EvcConnection
  evc_name :: "string option"
  men_priority :: PriorityOption
  men_pri :: int
  c_tag :: "int option"
  men_ctag_priority :: PriorityOption
  men_ctag_pri :: int
  match_ce_vlan_id :: "int option"
  match_untagged :: bool
  match_destination_mac_address :: "string option"
  match_l2cp :: bool
  match_broadcast :: bool
  match_multicast :: bool
  match_unicast :: bool
  match_igmp :: bool
  eth_type :: "int option"
  ip_protocol :: "int option"
  ipv4_dst :: "int option"
  udp_dst :: "int option"
  udp_src :: "int option"
  valid :: bool

text \<open>
  The circuit objects, by reference (the descriptor's \<^verbatim>\<open>_evc\<close> holds a reference or
  \<^verbatim>\<open>None\<close>), and the calls of \<^verbatim>\<open>edit_config\<close> made so far, oldest first.
\<close>

record world =
  evcs :: "nat \<Rightarrow> evc"
  sent :: "request list"

text \<open>
  Modelled from the spec: the circuit's descriptor collection contains the descriptor (the
  entry under the descriptor's name is this descriptor).
\<close>

definition is_registered :: "evc \<Rightarrow> evc_map \<Rightarrow> bool" where
  "is_registered c d = (evc_maps c (name d) = Some (ident d))"

definition needs_acl_support :: "evc_map \<Rightarrow> bool" where
  "needs_acl_support d =
     (eth_type d \<noteq> None \<or> ip_protocol d \<noteq> None \<or> ipv4_dst d \<noteq> None \<or>
      udp_dst d \<noteq> None \<or> udp_src d \<noteq> None)"

definition xml_header :: "string option \<Rightarrow> string" where
  \<open>xml_header operation =
     ''<evc-maps xmlns="http://www.adtran.com/ns/yang/adtran-evc-maps"><evc-map'' @
     (case operation of None \<Rightarrow> '''' | Some op \<Rightarrow> '' operation="'' @ op @ ''"'') @ ''>''\<close>

definition xml_trailer :: string where
  "xml_trailer = ''</evc-map></evc-maps>''"

subsection \<open>Construction and decoding\<close>

text \<open>
  \<^verbatim>\<open>_decode\<close>, block by block. The result is what the method returns or raises, with the
  descriptor and the world as the method leaves them at that point.
\<close>

text \<open>The block under \<^verbatim>\<open># ACL logic\<close>.\<close>

definition decode_acl :: "externals \<Rightarrow> flow_entry \<Rightarrow> evc_map \<Rightarrow> evc_map" where
  "decode_acl imp fl d =
     (let d1 = d\<lparr>eth_type := flow_eth_type fl\<rparr>
      in if eth_type d1 = Some (EtherType_IPv4 imp)
         then let d2 = d1\<lparr>ip_protocol := flow_ip_protocol fl, ipv4_dst := flow_ipv4_dst fl\<rparr>
              in if ip_protocol d2 = Some (IpProtocol_UDP imp)
                 then d2\<lparr>udp_dst := flow_udp_dst fl, udp_src := flow_udp_src fl\<rparr>
                 else d2
         else d1)"

text \<open>The block \<^verbatim>\<open>if self._is_ingress_map and is_pon\<close>: the channel table.\<close>

definition decode_gem_ids :: "externals \<Rightarrow> flow_entry \<Rightarrow> bool \<Rightarrow> evc_map \<Rightarrow> evc_map" where
  "decode_gem_ids imp fl is_pon d =
     (if is_ingress_map d \<and> is_pon
      then (case get_southbound_port (flow_handler fl) (flow_in_port fl) of
              None \<Rightarrow> d
            | Some pp \<Rightarrow>
               let d1 = d\<lparr>gem_ids := Some (Gem_dict (pon_gem_ids pp (needs_acl_support d)))\<rparr>
               in if needs_acl_support d1 \<and> eth_type d1 \<noteq> Some (EtherType_EAPOL imp)
                  then d1\<lparr>gem_ids := Some Gem_empty_set\<rparr>
                  else d1)
      else d)"

text \<open>
  The last block: the pushed tags of the flow against the pop count of the circuit's own
  flow entry. It writes to the circuit \<open>r\<close> and returns, or raises.
\<close>

definition decode_tags :: "flow_entry \<Rightarrow> nat \<Rightarrow> world \<Rightarrow> (exn + bool) \<times> world" where
  "decode_tags fl r w =
     (if length (flow_push_vlan_id fl) = 1 \<and> pop_vlan (flow_entry (evcs w r)) = 1
      then let w1 = w\<lparr>evcs := (evcs w)(r := (evcs w r)
                        \<lparr>men_to_uni_tag_manipulation := SYMMETRIC,
                         switching_method := SINGLE_TAGGED\<rparr>)\<rparr>
           in (case flow_push_vlan_tpid fl of
                 [] \<Rightarrow> (Inl IndexError, w1)
               | t # ts \<Rightarrow> (Inr True, w1\<lparr>evcs := (evcs w1)(r := (evcs w1 r)\<lparr>stpid := t\<rparr>)\<rparr>))
      else if length (flow_push_vlan_id fl) = 2 \<and> pop_vlan (flow_entry (evcs w r)) = 1
      then (Inl NotImplementedError,
            w\<lparr>evcs := (evcs w)(r := (evcs w r)
                 \<lparr>men_to_uni_tag_manipulation := POP_OUT_TAG_ONLY,
                  switching_method := DOUBLE_TAGGED\<rparr>)\<rparr>)
      else (Inr True, w))"

definition decode :: "externals \<Rightarrow> evc_map \<Rightarrow> world \<Rightarrow> (exn + bool) \<times> evc_map \<times> world" where
  "decode imp d0 w0 =
     (case flow d0 of
        None \<Rightarrow> (Inl AttributeError, d0, w0)
      | Some fl \<Rightarrow>
         let d1 = d0\<lparr>name := Some (''VOLTHA-'' @ str_int (flow_in_port fl) @ ''-'' @
                                  str_int (flow_id fl))\<rparr>
         in (case evc d1 of
               None \<Rightarrow>
                 (Inr False,
                  d1\<lparr>status_message := Some ''Can only create EVC-MAP if EVC supplied''\<rparr>, w0)
             | Some r \<Rightarrow>
                let d2 = d1\<lparr>evc_connection := EVC,
                            evc_name := Some (circuit_name (evcs w0 r))\<rparr>;
                    is_pon = is_pon_port (flow_handler fl) (flow_in_port fl);
                    is_uni = is_uni_port (flow_handler fl) (flow_in_port fl)
                in if is_pon \<or> is_uni
                   then
                     let d3 = d2\<lparr>uni_port := get_port_name (flow_handler fl) (flow_in_port fl)\<rparr>;
                         w1 = w0\<lparr>evcs := (evcs w0)
                                   (r := (evcs w0 r)\<lparr>ce_vlan_preservation := False\<rparr>)\<rparr>;
                         d4 = decode_acl imp fl d3;
                         d5 = decode_gem_ids imp fl is_pon d4;
                         d6 = d5\<lparr>c_tag := flow_inner_vid fl\<rparr>
                     in (case decode_tags fl r w1 of (res, w2) \<Rightarrow> (res, d6, w2))
                   else (Inr False,
                         d2\<lparr>status_message :=
                              Some ''EVC-MAPS without UNI or PON ports are not supported''\<rparr>,
                         w0)))"

text \<open>
  \<^verbatim>\<open>__init__\<close>: the fields' initial values, \<^verbatim>\<open>_decode\<close> under \<^verbatim>\<open>try\<close>, and the registration.
  \<open>i\<close> is the identity of the object being constructed. The registration is outside the
  \<^verbatim>\<open>try\<close>: a call of \<^verbatim>\<open>add_evc_map\<close> on \<^verbatim>\<open>None\<close> would raise.
\<close>

definition EVCMap_blank :: "nat \<Rightarrow> flow_entry option \<Rightarrow> nat option \<Rightarrow> bool \<Rightarrow> evc_map" where
  "EVCMap_blank i fl ev ingress =
     \<lparr>ident = i, flow = fl, evc = ev, gem_ids = None, is_ingress_map = ingress,
      installed = False, status_message = None, name = None, enabled = True,
      uni_port = None, evc_connection = NO_EVC_CONNECTION, evc_name = None,
      men_priority = INHERIT_PRIORITY, men_pri = 0, c_tag = None,
      men_ctag_priority = INHERIT_PRIORITY, men_ctag_pri = 0, match_ce_vlan_id = None,
      match_untagged = True, match_destination_mac_address = None, match_l2cp = False,
      match_broadcast = False, match_multicast = False, match_unicast = False,
      match_igmp = False, eth_type = None, ip_protocol = None, ipv4_dst = None,
      udp_dst = None, udp_src = None, valid = False\<rparr>"

definition EVCMap_init ::
  "externals \<Rightarrow> nat \<Rightarrow> flow_entry option \<Rightarrow> nat option \<Rightarrow> bool \<Rightarrow> world
     \<Rightarrow> exn + evc_map \<times> world" where
  "EVCMap_init imp i fl ev ingress w0 =
     (let (res, d1, w1) = decode imp (EVCMap_blank i fl ev ingress) w0;
          d2 = (case res of Inl e \<Rightarrow> d1\<lparr>valid := False\<rparr> | Inr v \<Rightarrow> d1\<lparr>valid := v\<rparr>)
      in if valid d2
         then (case ev of
                 None \<Rightarrow> Inl AttributeError
               | Some r \<Rightarrow>
                  Inr (d2, w1\<lparr>evcs := (evcs w1)
                               (r := add_evc_map (name d2) (ident d2) (evcs w1 r))\<rparr>))
         else Inr (d2\<lparr>evc := None\<rparr>, w1))"

definition create_ingress_map ::
  "externals \<Rightarrow> nat \<Rightarrow> flow_entry option \<Rightarrow> nat option \<Rightarrow> world
     \<Rightarrow> exn + evc_map \<times> world" where
  "create_ingress_map imp i fl ev w = EVCMap_init imp i fl ev True w"

definition create_egress_map ::
  "externals \<Rightarrow> nat \<Rightarrow> flow_entry option \<Rightarrow> nat option \<Rightarrow> world
     \<Rightarrow> exn + evc_map \<times> world" where
  "create_egress_map imp i fl ev w = EVCMap_init imp i fl ev False w"

subsection \<open>Lifecycle operations\<close>

text \<open>
  \<^verbatim>\<open>self._flow.handler.netconf_client.edit_config(...)\<close>: without a flow rule the attribute
  access raises before any call is made; otherwise the call joins the log and the client
  answers. Each answer is taken to be there when the call returns (the request's deferred
  has fired), so an operation runs from its call to its return in one piece.
\<close>

definition edit_config :: "evc_map \<Rightarrow> world \<Rightarrow> request \<Rightarrow> (exn + results) \<times> world" where
  "edit_config d w req =
     (case flow d of
        None \<Rightarrow> (Inl AttributeError, w)
      | Some fl \<Rightarrow>
         (netconf_client (flow_handler fl) (sent w) req, w\<lparr>sent := sent w @ [req]\<rparr>))"

text \<open>The inner loop of \<^verbatim>\<open>pon_install\<close>: one \<^verbatim>\<open>evc-map\<close> element per channel of the unit.\<close>

fun pon_install_gems :: "externals \<Rightarrow> evc_map \<Rightarrow> int \<Rightarrow> int list \<Rightarrow> string \<Rightarrow> exn + string" where
  "pon_install_gems imp d onu_id [] x = Inr x"
| "pon_install_gems imp d onu_id (gem_id # rest) x =
     (case (case evc_name d of
              Some n \<Rightarrow> Inr (''<evc>'' @ n @ ''</evc>'')
            | None \<Rightarrow> EvcConnection_xml (Some (evc_connection d))) of
        Inl e \<Rightarrow> Inl e
      | Inr conn \<Rightarrow>
         pon_install_gems imp d onu_id rest
           (x @ ''<evc-map>'' @
            ''<name>'' @ fmt_str (name d) @ ''.'' @ str_int onu_id @ ''.'' @ str_int gem_id @
            ''</name>'' @
            ''<enabled>'' @ (if enabled d then ''true'' else ''false'') @ ''</enabled>'' @
            ''<uni>'' @ fmt_str (uni_port d) @ ''</uni>'' @
            conn @
            ''<ce-vlan-id>'' @ str_int (gem_id_to_gvid imp gem_id) @ ''</ce-vlan-id>'' @
            (case c_tag d of None \<Rightarrow> '''' | Some c \<Rightarrow> ''<ctag>'' @ str_int c @ ''</ctag>'') @
            ''</evc-map>''))"

definition pon_install_xml :: "externals \<Rightarrow> evc_map \<Rightarrow> int \<Rightarrow> int list \<Rightarrow> exn + string" where
  \<open>pon_install_xml imp d onu_id gems =
     (case pon_install_gems imp d onu_id gems
             ''<evc-maps xmlns="http://www.adtran.com/ns/yang/adtran-evc-maps">'' of
        Inl e \<Rightarrow> Inl e
      | Inr x \<Rightarrow> Inr (x @ ''</evc-maps>''))\<close>

text \<open>The outer loop of \<^verbatim>\<open>pon_install\<close>: one request per entry of the channel table.\<close>

fun pon_install_onus ::
  "externals \<Rightarrow> (int \<times> int list) list \<Rightarrow> evc_map \<Rightarrow> world \<Rightarrow> (exn + unit) \<times> evc_map \<times> world" where
  "pon_install_onus imp [] d w = (Inr (), d, w)"
| "pon_install_onus imp ((onu_id, gems) # rest) d w =
     (case pon_install_xml imp d onu_id gems of
        Inl e \<Rightarrow> (Inl e, d, w)
      | Inr x \<Rightarrow>
         (case edit_config d w \<lparr>xml = x, default_operation = None, lock_timeout = 30\<rparr> of
            (Inl e, w') \<Rightarrow> (Inl e, d\<lparr>installed := False\<rparr>, w')
          | (Inr res, w') \<Rightarrow>
             pon_install_onus imp rest
               (d\<lparr>installed := ok res,
                  status_message := Some (if ok res then '''' else error res)\<rparr>) w'))"

definition pon_install :: "externals \<Rightarrow> evc_map \<Rightarrow> world \<Rightarrow> (exn + bool) \<times> evc_map \<times> world" where
  "pon_install imp d w =
     (if valid d \<and> \<not> installed d
      then let d1 = d\<lparr>installed := True\<rparr>
           in (case gem_ids d1 of
                 None \<Rightarrow> (Inl AttributeError, d1, w)
               | Some Gem_empty_set \<Rightarrow> (Inl AttributeError, d1, w)
               | Some (Gem_dict tbl) \<Rightarrow>
                  (case pon_install_onus imp tbl d1 w of
                     (Inl e, d2, w2) \<Rightarrow> (Inl e, d2, w2)
                   | (Inr u, d2, w2) \<Rightarrow> (Inr (installed d2 \<and> valid d2), d2, w2)))
      else (Inr (installed d \<and> valid d), d, w))"

text \<open>
  \<^verbatim>\<open>install\<close>. The source calls \<^verbatim>\<open>self.pon_install()\<close> without waiting for its result: what
  that call raises stays in its own deferred and does not reach \<^verbatim>\<open>install\<close>.
\<close>

definition install :: "externals \<Rightarrow> evc_map \<Rightarrow> world \<Rightarrow> (exn + bool) \<times> evc_map \<times> world" where
  "install imp d w =
     (if gem_ids d \<noteq> None
      then (case pon_install imp d w of
              (res, d1, w1) \<Rightarrow> (Inr (installed d1 \<and> valid d1), d1, w1))
      else if valid d \<and> \<not> installed d
      then (case (case evc_name d of
                    Some n \<Rightarrow> Inr (''<evc>'' @ n @ ''</evc>'')
                  | None \<Rightarrow> EvcConnection_xml (Some (evc_connection d))) of
              Inl e \<Rightarrow> (Inl e, d, w)
            | Inr conn \<Rightarrow>
               let x = xml_header None @
                       ''<name>'' @ fmt_str (name d) @ ''</name>'' @
                       ''<enabled>'' @ (if enabled d then ''true'' else ''false'') @
                       ''</enabled>'' @
                       ''<uni>'' @ fmt_str (uni_port d) @ ''</uni>'' @
                       conn @
                       (if match_untagged d then ''<match-untagged>True</match-untagged>''
                        else case c_tag d of
                               Some c \<Rightarrow> ''<ctag>'' @ str_int c @ ''</ctag>''
                             | None \<Rightarrow> '''') @
                       xml_trailer
               in if needs_acl_support d
                  then let d1 = d\<lparr>installed := True\<rparr>
                       in (Inr (installed d1 \<and> valid d1), d1, w)
                  else (case edit_config d w
                               \<lparr>xml = x, default_operation = None, lock_timeout = 30\<rparr> of
                          (Inl e, w1) \<Rightarrow> (Inl e, d, w1)
                        | (Inr res, w1) \<Rightarrow>
                           let d1 = d\<lparr>installed := ok res,
                                      status_message :=
                                        Some (if ok res then '''' else error res)\<rparr>
                           in (Inr (installed d1 \<and> valid d1), d1, w1)))
      else (Inr (installed d \<and> valid d), d, w))"

definition remove :: "evc_map \<Rightarrow> world \<Rightarrow> (exn + bool) \<times> evc_map \<times> world" where
  "remove d w =
     (if installed d
      then let x = xml_header (Some ''remove'') @ ''<name>'' @ fmt_str (name d) @ ''</name>'' @
                   xml_trailer
           in if needs_acl_support d
              then let d1 = d\<lparr>installed := False\<rparr> in (Inr (installed d1), d1, w)
              else (case edit_config d w
                           \<lparr>xml = x, default_operation = Some ''remove'', lock_timeout = 30\<rparr> of
                      (Inl e, w1) \<Rightarrow> (Inl e, d, w1)
                    | (Inr res, w1) \<Rightarrow>
                       let d1 = d\<lparr>installed := \<not> ok res,
                                  status_message := Some (if ok res then '''' else error res)\<rparr>
                       in (Inr (installed d1), d1, w1))
      else (Inr (installed d), d, w))"

definition enable :: "evc_map \<Rightarrow> world \<Rightarrow> (exn + bool) \<times> evc_map \<times> world" where
  "enable d w =
     (if installed d \<and> \<not> enabled d
      then let x = xml_header None @ ''<name>'' @ fmt_str (name d) @ ''</name>'' @
                   ''<enabled>true</enabled>'' @ xml_trailer
           in if needs_acl_support d
              then let d1 = d\<lparr>enabled := True\<rparr> in (Inr (installed d1 \<and> enabled d1), d1, w)
              else (case edit_config d w
                           \<lparr>xml = x, default_operation = None, lock_timeout = 30\<rparr> of
                      (Inl e, w1) \<Rightarrow> (Inl e, d, w1)
                    | (Inr res, w1) \<Rightarrow>
                       let d1 = d\<lparr>enabled := ok res,
                                  status_message := Some (if ok res then '''' else error res)\<rparr>
                       in (Inr (installed d1 \<and> enabled d1), d1, w1))
      else (Inr (installed d \<and> enabled d), d, w))"

definition disable :: "evc_map \<Rightarrow> world \<Rightarrow> (exn + bool) \<times> evc_map \<times> world" where
  "disable d w =
     (if installed d \<and> enabled d
      then let x = xml_header None @ ''<name>'' @ fmt_str (name d) @ ''</name>'' @
                   ''<enabled>false</enabled>'' @ xml_trailer
           in if needs_acl_support d
              then let d1 = d\<lparr>enabled := False\<rparr>
                   in (Inr (installed d1 \<and> \<not> enabled d1), d1, w)
              else (case edit_config d w
                           \<lparr>xml = x, default_operation = None, lock_timeout = 30\<rparr> of
                      (Inl e, w1) \<Rightarrow> (Inl e, d, w1)
                    | (Inr res, w1) \<Rightarrow>
                       let d1 = d\<lparr>enabled := \<not> ok res,
                                  status_message := Some (if ok res then '''' else error res)\<rparr>
                       in (Inr (installed d1 \<and> \<not> enabled d1), d1, w1))
      else (Inr (installed d \<and> \<not> enabled d), d, w))"

text \<open>
  \<^verbatim>\<open>delete\<close>: \<^verbatim>\<open>try\<close> (invalidate, remove), \<^verbatim>\<open>except Exception\<close> (the outcome is false),
  \<^verbatim>\<open>finally\<close> (drop the flow rule and the circuit, deregister).
\<close>

definition delete :: "evc_map \<Rightarrow> world \<Rightarrow> (exn + bool) \<times> evc_map \<times> world" where
  "delete d w =
     (let d1 = d\<lparr>valid := False\<rparr>
      in (case remove d1 w of
            (res, d2, w2) \<Rightarrow>
              let succeeded = (case res of Inl e \<Rightarrow> False | Inr b \<Rightarrow> b);
                  d3 = d2\<lparr>flow := None\<rparr>;
                  ev = evc d3;
                  d4 = d3\<lparr>evc := None\<rparr>;
                  w3 = (case ev of
                          None \<Rightarrow> w2
                        | Some r \<Rightarrow>
                           w2\<lparr>evcs := (evcs w2)
                                (r := remove_evc_map (name d4) (ident d4) (evcs w2 r))\<rparr>)
              in (Inr succeeded, d4, w3)))"

subsection \<open>Bulk removal\<close>

text \<open>
  The reply to the query, after \<^verbatim>\<open>xmltodict.parse(rpc_reply.data_xml)['data']\<close>: that
  expression raises, or gives a dictionary that has no \<^verbatim>\<open>'evc-maps'\<close> key (\<open>None\<close>), one
  whose \<^verbatim>\<open>'evc-maps'\<close> has no \<^verbatim>\<open>'evc-map'\<close> key (\<open>Some None\<close>), or one whose \<^verbatim>\<open>'evc-map'\<close> is a
  list of entries (several elements) or a single entry (one element). An entry is an
  ordered dictionary, its items in order.
\<close>

type_synonym entry = "(string \<times> string) list"

datatype evc_map_node = Entry_list "entry list" | Entry_dict entry

record rpc_reply =
  reply_ok :: bool
  data :: "exn + evc_map_node option option"

text \<open>What a deferred carries: \<^verbatim>\<open>None\<close>, the text \<^verbatim>\<open>'no entries'\<close>, or a result object.\<close>

datatype dval = No_value | Text string | Result results

text \<open>
  The set comprehension over a list of entries, with \<open>p\<close> for
  \<^verbatim>\<open>re.compile(regexpr).match\<close>; the set is a list without duplicates.
\<close>

definition names_of_list :: "(string \<Rightarrow> bool) \<Rightarrow> entry list \<Rightarrow> string list" where
  "names_of_list p es =
     remdups (concat (map (\<lambda>e. case map_of e ''name'' of
                                   None \<Rightarrow> []
                                 | Some n \<Rightarrow> if p n then [n] else []) es))"

text \<open>The loop over the items of a single entry: the first item whose key is \<^verbatim>\<open>'name'\<close>.\<close>

fun names_of_dict :: "entry \<Rightarrow> string list" where
  "names_of_dict [] = []"
| "names_of_dict ((k, v) # items) = (if k = ''name'' then [v] else names_of_dict items)"

text \<open>The loop that builds the delete document; the trailer is added in the loop's body.\<close>

fun del_xml_names :: "string list \<Rightarrow> string \<Rightarrow> string" where
  "del_xml_names [] x = x"
| "del_xml_names (n # ns) x =
     del_xml_names ns (x @ ''<name>'' @ n @ ''</name>'' @ xml_trailer)"

definition do_delete ::
  "netconf_client \<Rightarrow> request list \<Rightarrow> rpc_reply \<Rightarrow> (string \<Rightarrow> bool) \<Rightarrow> (exn + dval) \<times> request list" where
  "do_delete client log rpc p =
     (if reply_ok rpc
      then (case data rpc of
              Inl e \<Rightarrow> (Inl e, log)
            | Inr result_data \<Rightarrow>
               let entries = (case result_data of None \<Rightarrow> None | Some es \<Rightarrow> es)
               in (case entries of
                     None \<Rightarrow> (Inr (Text ''no entries''), log)
                   | Some node \<Rightarrow>
                      let names = (case node of
                                     Entry_list es \<Rightarrow> names_of_list p es
                                   | Entry_dict e \<Rightarrow> names_of_dict e)
                      in if length names > 0
                         then let del_xml = del_xml_names names (xml_header (Some ''delete''));
                                  req = \<lparr>xml = del_xml, default_operation = None,
                                         lock_timeout = 30\<rparr>
                              in (map_sum id Result (client log req), log @ [req])
                         else (Inr (Text ''no entries''), log)))
      else (Inr (Text ''no entries''), log))"

text \<open>
  \<^verbatim>\<open>remove_all\<close>: the query's outcome goes through the two pairs of callbacks. A callback
  pair passes a success to its callback and a failure to its errback; \<^verbatim>\<open>request_failed\<close>
  and \<^verbatim>\<open>delete_complete\<close> only log and return \<^verbatim>\<open>None\<close>. The result is what the returned
  deferred carries in the end, and the log of \<^verbatim>\<open>edit_config\<close> calls.
\<close>

definition request_failed :: "exn \<Rightarrow> string \<Rightarrow> exn + dval" where
  "request_failed failure operation = Inr No_value"

definition delete_complete :: "dval \<Rightarrow> exn + dval" where
  "delete_complete r = Inr No_value"

definition remove_all ::
  "netconf_client \<Rightarrow> (exn + rpc_reply) \<Rightarrow> (string \<Rightarrow> bool) \<Rightarrow> request list
     \<Rightarrow> (exn + dval) \<times> request list" where
  "remove_all client get_outcome p log =
     (let (r1, log1) = (case get_outcome of
                          Inr rpc \<Rightarrow> do_delete client log rpc p
                        | Inl failure \<Rightarrow> (request_failed failure ''get'', log));
          r2 = (case r1 of
                  Inr v \<Rightarrow> delete_complete v
                | Inl failure \<Rightarrow> request_failed failure ''edit-config'')
      in (r2, log1))"

text \<open>
  The default pattern \<^verbatim>\<open>'VOLTHA-*'\<close> under \<^verbatim>\<open>re.match\<close>: the text \<^verbatim>\<open>VOLTHA\<close> at the start of
  the name, followed by any number of hyphens.
\<close>

definition EVC_MAP_NAME_REGEX_ALL :: "string \<Rightarrow> bool" where
  "EVC_MAP_NAME_REGEX_ALL n = (take 6 n = ''VOLTHA'')"

subsection \<open>Sequences of lifecycle operations\<close>

datatype lifecycle_op = Install | Pon_install | Remove | Enable | Disable | Delete

definition apply_op ::
  "externals \<Rightarrow> lifecycle_op \<Rightarrow> evc_map \<Rightarrow> world \<Rightarrow> (exn + bool) \<times> evc_map \<times> world" where
  "apply_op imp opn d w =
     (case opn of
        Install \<Rightarrow> install imp d w
      | Pon_install \<Rightarrow> pon_install imp d w
      | Remove \<Rightarrow> remove d w
      | Enable \<Rightarrow> enable d w
      | Disable \<Rightarrow> disable d w
      | Delete \<Rightarrow> delete d w)"

text \<open>
  The state after a sequence of calls; a caller that catches what a call raises goes on
  from the state the call left.
\<close>

fun run_ops :: "externals \<Rightarrow> lifecycle_op list \<Rightarrow> evc_map \<times> world \<Rightarrow> evc_map \<times> world" where
  "run_ops imp [] s = s"
| "run_ops imp (opn # ops) (d, w) = run_ops imp ops (snd (apply_op imp opn d w))"

subsection \<open>The invariant that ties a descriptor to its circuit\<close>

text \<open>
  For the descriptor with identity \<open>i\<close>: the identity occurs in a circuit's collection only
  under the descriptor's name, in the circuit the descriptor refers to, and while the
  descriptor is valid; a valid descriptor refers to a circuit that holds it, and carries
  the circuit's name.
\<close>

definition descriptor_inv :: "nat \<Rightarrow> evc_map \<Rightarrow> world \<Rightarrow> bool" where
  "descriptor_inv i d w = (ident d = i \<and>
     (\<forall>r n. evc_maps (evcs w r) n = Some i \<longrightarrow> n = name d \<and> valid d \<and> evc d = Some r) \<and>
     (valid d \<longrightarrow> (\<exists>r. evc d = Some r \<and> evc_maps (evcs w r) (name d) = Some i)) \<and>
     (valid d \<longrightarrow> evc_name d \<noteq> None))"

subsection \<open>Example inputs\<close>

text \<open>
  A device with a shared access-line port 1029 serving two subscriber units and a
  point-to-point port 5, whose client rejects the first request it gets and accepts the
  later ones; a flow on port 5 that pushes one tag; a circuit whose own flow entry pops one.
\<close>

definition ex_externals :: externals where
  "ex_externals = \<lparr>EtherType_IPv4 = 2048, EtherType_EAPOL = 34958, IpProtocol_UDP = 17,
                    gem_id_to_gvid = (\<lambda>g. g - 2176)\<rparr>"

definition ex_client :: netconf_client where
  "ex_client log req =
     (if log = [] then Inr \<lparr>ok = False, error = ''rejected''\<rparr>
      else Inr \<lparr>ok = True, error = ''''\<rparr>)"

definition ex_handler :: handler where
  "ex_handler =
     \<lparr>is_pon_port = (\<lambda>p. p = 1029),
      is_uni_port = (\<lambda>p. p = 5),
      get_port_name = (\<lambda>p. Some (str_int p)),
      get_southbound_port =
        (\<lambda>p. if p = 1029
              then Some \<lparr>pon_gem_ids = (\<lambda>exception. [(1, [2176]), (2, [2177, 2178])])\<rparr>
              else None),
      netconf_client = ex_client\<rparr>"

definition ex_flow :: flow_entry where
  "ex_flow =
     \<lparr>flow_handler = ex_handler, flow_in_port = 5, flow_id = 55, flow_eth_type = None,
      flow_ip_protocol = None, flow_ipv4_dst = None, flow_udp_dst = None,
      flow_udp_src = None, flow_inner_vid = None, flow_push_vlan_id = [100],
      flow_push_vlan_tpid = [33024], pop_vlan = 0\<rparr>"

definition ex_evc :: evc where
  "ex_evc =
     \<lparr>circuit_name = ''VOLTHA-2-77'', ce_vlan_preservation = True,
      men_to_uni_tag_manipulation = SYMMETRIC, switching_method = SINGLE_TAGGED,
      stpid = 33024, flow_entry = ex_flow\<lparr>flow_in_port := 2, flow_id := 77, pop_vlan := 1\<rparr>,
      evc_maps = Map.empty\<rparr>"

definition ex_world :: world where
  "ex_world = \<lparr>evcs = (\<lambda>r. ex_evc), sent = []\<rparr>"

text \<open>The descriptor built for that flow and circuit, and the world after its construction.\<close>

definition ex_map :: evc_map where
  "ex_map = fst (projr (EVCMap_init ex_externals 7 (Some ex_flow) (Some 0) True ex_world))"

definition ex_map_world :: world where
  "ex_map_world = snd (projr (EVCMap_init ex_externals 7 (Some ex_flow) (Some 0) True ex_world))"

text \<open>A flow on port 5 that matches DHCP requests (IPv4, UDP, destination port 67).\<close>

definition ex_dhcp_flow :: flow_entry where
  "ex_dhcp_flow = ex_flow\<lparr>flow_id := 56, flow_eth_type := Some 2048,
                           flow_ip_protocol := Some 17, flow_udp_dst := Some 67\<rparr>"

definition ex_dhcp_map :: evc_map where
  "ex_dhcp_map =
     fst (projr (EVCMap_init ex_externals 8 (Some ex_dhcp_flow) (Some 0) False ex_world))"

definition ex_dhcp_world :: world where
  "ex_dhcp_world =
     snd (projr (EVCMap_init ex_externals 8 (Some ex_dhcp_flow) (Some 0) False ex_world))"

text \<open>A flow on the shared port 1029, and the ingress descriptor built for it.\<close>

definition ex_pon_flow :: flow_entry where
  "ex_pon_flow = ex_flow\<lparr>flow_in_port := 1029, flow_id := 57\<rparr>"

definition ex_pon_map :: evc_map where
  "ex_pon_map =
     fst (projr (create_ingress_map ex_externals 9 (Some ex_pon_flow) (Some 0) ex_world))"

definition ex_pon_world :: world where
  "ex_pon_world =
     snd (projr (create_ingress_map ex_externals 9 (Some ex_pon_flow) (Some 0) ex_world))"

section \<open>Properties\<close>

subsection \<open>Auxiliary facts: what the operations leave unchanged\<close>

lemma edit_config_evcs: "evcs (snd (edit_config d w req)) = evcs w"
  by (simp add: edit_config_def split: option.splits)

lemma remove_frame:
  "remove d w = (res, d', w') \<Longrightarrow>
   ident d' = ident d \<and> name d' = name d \<and> valid d' = valid d \<and> evc d' = evc d \<and>
   evc_name d' = evc_name d \<and> evcs w' = evcs w"
  by (auto simp: remove_def Let_def edit_config_def split: if_splits option.splits sum.splits prod.splits)

lemma enable_frame:
  "enable d w = (res, d', w') \<Longrightarrow>
   ident d' = ident d \<and> name d' = name d \<and> valid d' = valid d \<and> evc d' = evc d \<and>
   evc_name d' = evc_name d \<and> evcs w' = evcs w"
  by (auto simp: enable_def Let_def edit_config_def split: if_splits option.splits sum.splits prod.splits)

lemma disable_frame:
  "disable d w = (res, d', w') \<Longrightarrow>
   ident d' = ident d \<and> name d' = name d \<and> valid d' = valid d \<and> evc d' = evc d \<and>
   evc_name d' = evc_name d \<and> evcs w' = evcs w"
  by (auto simp: disable_def Let_def edit_config_def split: if_splits option.splits sum.splits prod.splits)

lemma pon_install_onus_frame:
  "pon_install_onus imp tbl d w = (res, d', w') \<Longrightarrow>
   ident d' = ident d \<and> name d' = name d \<and> valid d' = valid d \<and> evc d' = evc d \<and>
   evc_name d' = evc_name d \<and> evcs w' = evcs w"
proof (induction tbl arbitrary: d w)
  case Nil
  then show ?case by simp
next
  case (Cons a tbl)
  obtain onu_id gems where a: "a = (onu_id, gems)" by (cases a)
  show ?case
  proof (cases "pon_install_xml imp d onu_id gems")
    case (Inl e)
    then show ?thesis using Cons.prems a by simp
  next
    case (Inr x)
    let ?req = "\<lparr>xml = x, default_operation = None, lock_timeout = 30\<rparr>"
    obtain r w1 where ec: "edit_config d w ?req = (r, w1)" by (cases "edit_config d w ?req")
    have w1: "evcs w1 = evcs w" using edit_config_evcs [of d w ?req] ec by simp
    show ?thesis
    proof (cases r)
      case (Inl e)
      then show ?thesis using Cons.prems a Inr ec w1 by auto
    next
      case (Inr res')
      let ?d1 = "d\<lparr>installed := ok res',
                  status_message := Some (if ok res' then '''' else error res')\<rparr>"
      have "pon_install_onus imp tbl ?d1 w1 = (res, d', w')"
        using Cons.prems a \<open>pon_install_xml imp d onu_id gems = Inr x\<close> ec Inr by simp
      from Cons.IH [OF this] w1 show ?thesis by simp
    qed
  qed
qed

lemma pon_install_frame:
  "pon_install imp d w = (res, d', w') \<Longrightarrow>
   ident d' = ident d \<and> name d' = name d \<and> valid d' = valid d \<and> evc d' = evc d \<and>
   evc_name d' = evc_name d \<and> evcs w' = evcs w"
proof -
  assume a: "pon_install imp d w = (res, d', w')"
  show ?thesis
  proof (cases "valid d \<and> \<not> installed d")
    case False
    then show ?thesis using a by (auto simp: pon_install_def)
  next
    case True
    show ?thesis
    proof (cases "gem_ids d")
      case None
      then show ?thesis using a True by (auto simp: pon_install_def)
    next
      case (Some t)
      show ?thesis
      proof (cases t)
        case Gem_empty_set
        then show ?thesis using a True Some by (auto simp: pon_install_def)
      next
        case (Gem_dict tbl)
        obtain r2 d2 w2 where p: "pon_install_onus imp tbl (d\<lparr>installed := True\<rparr>) w = (r2, d2, w2)"
          by (cases "pon_install_onus imp tbl (d\<lparr>installed := True\<rparr>) w") auto
        have "d' = d2 \<and> w' = w2"
          using a True Some Gem_dict p by (cases r2) (auto simp: pon_install_def)
        then show ?thesis using pon_install_onus_frame [OF p] by simp
      qed
    qed
  qed
qed

lemma install_frame:
  "install imp d w = (res, d', w') \<Longrightarrow>
   ident d' = ident d \<and> name d' = name d \<and> valid d' = valid d \<and> evc d' = evc d \<and>
   evc_name d' = evc_name d \<and> evcs w' = evcs w"
proof -
  assume a: "install imp d w = (res, d', w')"
  show ?thesis
  proof (cases "gem_ids d \<noteq> None")
    case True
    obtain r1 d1 w1 where p: "pon_install imp d w = (r1, d1, w1)"
      by (cases "pon_install imp d w") auto
    have "d' = d1 \<and> w' = w1" using a True p by (auto simp: install_def)
    then show ?thesis using pon_install_frame [OF p] by simp
  next
    case False
    then show ?thesis using a
      by (auto simp: install_def Let_def edit_config_def
               split: if_splits option.splits sum.splits prod.splits)
  qed
qed

subsection \<open>Auxiliary facts: the decoder\<close>

lemma decode_acl_eq:
  "decode_acl imp fl d =
     d\<lparr>eth_type := flow_eth_type fl,
       ip_protocol := (if flow_eth_type fl = Some (EtherType_IPv4 imp)
                       then flow_ip_protocol fl else ip_protocol d),
       ipv4_dst := (if flow_eth_type fl = Some (EtherType_IPv4 imp)
                    then flow_ipv4_dst fl else ipv4_dst d),
       udp_dst := (if flow_eth_type fl = Some (EtherType_IPv4 imp) \<and>
                      flow_ip_protocol fl = Some (IpProtocol_UDP imp)
                   then flow_udp_dst fl else udp_dst d),
       udp_src := (if flow_eth_type fl = Some (EtherType_IPv4 imp) \<and>
                      flow_ip_protocol fl = Some (IpProtocol_UDP imp)
                   then flow_udp_src fl else udp_src d)\<rparr>"
  by (simp add: decode_acl_def Let_def)

lemma decode_gem_ids_fields:
  "ident (decode_gem_ids imp fl p d) = ident d"
  "evc (decode_gem_ids imp fl p d) = evc d"
  "name (decode_gem_ids imp fl p d) = name d"
  "evc_name (decode_gem_ids imp fl p d) = evc_name d"
  "installed (decode_gem_ids imp fl p d) = installed d"
  "status_message (decode_gem_ids imp fl p d) = status_message d"
  "eth_type (decode_gem_ids imp fl p d) = eth_type d"
  "ip_protocol (decode_gem_ids imp fl p d) = ip_protocol d"
  "ipv4_dst (decode_gem_ids imp fl p d) = ipv4_dst d"
  "udp_dst (decode_gem_ids imp fl p d) = udp_dst d"
  "udp_src (decode_gem_ids imp fl p d) = udp_src d"
  by (simp_all add: decode_gem_ids_def Let_def split: option.splits)

lemma decode_tags_frame:
  "sent (snd (decode_tags fl r w)) = sent w"
  "evc_maps (evcs (snd (decode_tags fl r w)) r') = evc_maps (evcs w r')"
  "ce_vlan_preservation (evcs (snd (decode_tags fl r w)) r') = ce_vlan_preservation (evcs w r')"
  by (simp_all add: decode_tags_def Let_def split: list.splits)

lemma decode_tags_two:
  "length (flow_push_vlan_id fl) = 2 \<Longrightarrow> pop_vlan (flow_entry (evcs w r)) = 1 \<Longrightarrow>
   decode_tags fl r w = (Inl NotImplementedError,
            w\<lparr>evcs := (evcs w)(r := (evcs w r)
                 \<lparr>men_to_uni_tag_manipulation := POP_OUT_TAG_ONLY,
                  switching_method := DOUBLE_TAGGED\<rparr>)\<rparr>)"
  by (simp add: decode_tags_def)

lemma decode_cases [case_names no_flow no_evc bad_port classified]:
  obtains
    "flow d = None" "decode imp d w = (Inl AttributeError, d, w)"
  | fl where "flow d = Some fl" "evc d = None"
      "fst (decode imp d w) = Inr False" "snd (snd (decode imp d w)) = w"
      "ident (fst (snd (decode imp d w))) = ident d"
      "evc (fst (snd (decode imp d w))) = None"
  | fl r where "flow d = Some fl" "evc d = Some r"
      "\<not> (is_pon_port (flow_handler fl) (flow_in_port fl) \<or>
          is_uni_port (flow_handler fl) (flow_in_port fl))"
      "fst (decode imp d w) = Inr False" "snd (snd (decode imp d w)) = w"
      "ident (fst (snd (decode imp d w))) = ident d"
      "evc (fst (snd (decode imp d w))) = Some r"
  | fl r where "flow d = Some fl" "evc d = Some r"
      "is_pon_port (flow_handler fl) (flow_in_port fl) \<or>
       is_uni_port (flow_handler fl) (flow_in_port fl)"
      "decode imp d w =
        (fst (decode_tags fl r
               (w\<lparr>evcs := (evcs w)(r := (evcs w r)\<lparr>ce_vlan_preservation := False\<rparr>)\<rparr>)),
         (decode_gem_ids imp fl (is_pon_port (flow_handler fl) (flow_in_port fl))
            (decode_acl imp fl
               (d\<lparr>name := Some (''VOLTHA-'' @ str_int (flow_in_port fl) @ ''-'' @
                                 str_int (flow_id fl)),
                   evc_connection := EVC,
                   evc_name := Some (circuit_name (evcs w r)),
                   uni_port := get_port_name (flow_handler fl) (flow_in_port fl)\<rparr>)))
           \<lparr>c_tag := flow_inner_vid fl\<rparr>,
         snd (decode_tags fl r
               (w\<lparr>evcs := (evcs w)(r := (evcs w r)\<lparr>ce_vlan_preservation := False\<rparr>)\<rparr>)))"
proof (cases "flow d")
  case None
  then have "decode imp d w = (Inl AttributeError, d, w)" by (simp add: decode_def)
  with None that(1) show ?thesis by blast
next
  case (Some fl)
  note fl = Some
  show ?thesis
  proof (cases "evc d")
    case None
    have "fst (decode imp d w) = Inr False" "snd (snd (decode imp d w)) = w"
      "ident (fst (snd (decode imp d w))) = ident d"
      "evc (fst (snd (decode imp d w))) = None"
      using fl None by (simp_all add: decode_def Let_def)
    with fl None that(2) show ?thesis by blast
  next
    case (Some r)
    show ?thesis
    proof (cases "is_pon_port (flow_handler fl) (flow_in_port fl) \<or>
                  is_uni_port (flow_handler fl) (flow_in_port fl)")
      case False
      have "fst (decode imp d w) = Inr False" "snd (snd (decode imp d w)) = w"
        "ident (fst (snd (decode imp d w))) = ident d"
        "evc (fst (snd (decode imp d w))) = Some r"
        using fl Some False by (simp_all add: decode_def Let_def)
      with fl Some False that(3) show ?thesis by blast
    next
      case True
      have "decode imp d w =
        (fst (decode_tags fl r
               (w\<lparr>evcs := (evcs w)(r := (evcs w r)\<lparr>ce_vlan_preservation := False\<rparr>)\<rparr>)),
         (decode_gem_ids imp fl (is_pon_port (flow_handler fl) (flow_in_port fl))
            (decode_acl imp fl
               (d\<lparr>name := Some (''VOLTHA-'' @ str_int (flow_in_port fl) @ ''-'' @
                                 str_int (flow_id fl)),
                   evc_connection := EVC,
                   evc_name := Some (circuit_name (evcs w r)),
                   uni_port := get_port_name (flow_handler fl) (flow_in_port fl)\<rparr>)))
           \<lparr>c_tag := flow_inner_vid fl\<rparr>,
         snd (decode_tags fl r
               (w\<lparr>evcs := (evcs w)(r := (evcs w r)\<lparr>ce_vlan_preservation := False\<rparr>)\<rparr>)))"
        using fl Some True by (simp add: decode_def Let_def case_prod_beta)
      with fl Some True that(4) show ?thesis by blast
    qed
  qed
qed

subsection \<open>Auxiliary facts: the invariant\<close>

lemma delete_result:
  "remove (d\<lparr>valid := False\<rparr>) w = (res, d2, w2) \<Longrightarrow>
   delete d w =
     (Inr (case res of Inl e \<Rightarrow> False | Inr b \<Rightarrow> b),
      d2\<lparr>flow := None, evc := None\<rparr>,
      (case evc d2 of
         None \<Rightarrow> w2
       | Some r \<Rightarrow> w2\<lparr>evcs := (evcs w2)(r := remove_evc_map (name d2) (ident d2) (evcs w2 r))\<rparr>))"
  by (simp add: delete_def Let_def split: option.splits)

lemma decode_frame:
  "decode imp d w = (res, d', w') \<Longrightarrow>
   ident d' = ident d \<and> evc d' = evc d \<and> sent w' = sent w \<and>
   (\<forall>r. evc_maps (evcs w' r) = evc_maps (evcs w r))"
  by (rule decode_cases [of d imp w])
     (auto simp: decode_acl_eq decode_gem_ids_fields decode_tags_frame)

lemma decode_True:
  "decode imp d w = (Inr True, d', w') \<Longrightarrow> evc d \<noteq> None \<and> evc_name d' \<noteq> None"
  by (rule decode_cases [of d imp w])
     (auto simp: decode_acl_eq decode_gem_ids_fields)

lemma init_inv:
  assumes fresh: "\<forall>r n. evc_maps (evcs w r) n \<noteq> Some i"
    and init: "EVCMap_init imp i fl ev ingress w = Inr (d, w')"
  shows "descriptor_inv i d w'"
proof -
  obtain res d1 w1 where dec: "decode imp (EVCMap_blank i fl ev ingress) w = (res, d1, w1)"
    by (cases "decode imp (EVCMap_blank i fl ev ingress) w") auto
  have fr: "ident d1 = i" "evc d1 = ev" "\<And>r. evc_maps (evcs w1 r) = evc_maps (evcs w r)"
    using decode_frame [OF dec] by (simp_all add: EVCMap_blank_def)
  show ?thesis
  proof (cases "res = Inr True")
    case True
    then obtain r where r: "ev = Some r" and nm: "evc_name d1 \<noteq> None"
      using decode_True [of imp "EVCMap_blank i fl ev ingress" w d1 w1] dec
      by (auto simp: EVCMap_blank_def)
    have d: "d = d1\<lparr>valid := True\<rparr>"
      and w': "w' = w1\<lparr>evcs := (evcs w1)(r := add_evc_map (name d1) i (evcs w1 r))\<rparr>"
      using init dec True r fr(1) by (simp_all add: EVCMap_init_def)
    show ?thesis
      using fresh fr nm by (auto simp: descriptor_inv_def d w' add_evc_map_def r)
  next
    case False
    then have "d = d1\<lparr>valid := False, evc := None\<rparr> \<and> w' = w1"
      using init dec by (cases res) (auto simp: EVCMap_init_def split: if_splits)
    then show ?thesis using fresh fr by (auto simp: descriptor_inv_def)
  qed
qed

lemma apply_op_frame:
  assumes "opn \<noteq> Delete" and "apply_op imp opn d w = (res, d', w')"
  shows "ident d' = ident d \<and> name d' = name d \<and> valid d' = valid d \<and> evc d' = evc d \<and>
         evc_name d' = evc_name d \<and> evcs w' = evcs w"
  using assms install_frame pon_install_frame remove_frame enable_frame disable_frame
  by (cases opn) (simp_all add: apply_op_def)

lemma apply_op_inv:
  assumes "descriptor_inv i d w" and "apply_op imp opn d w = (res, d', w')"
  shows "descriptor_inv i d' w'"
proof (cases "opn = Delete")
  case False
  from apply_op_frame [OF False assms(2)] assms(1) show ?thesis
    by (simp add: descriptor_inv_def)
next
  case True
  obtain r2 d2 w2 where rm: "remove (d\<lparr>valid := False\<rparr>) w = (r2, d2, w2)"
    by (cases "remove (d\<lparr>valid := False\<rparr>) w") auto
  from remove_frame [OF rm]
  have fr: "ident d2 = ident d" "name d2 = name d" "evc d2 = evc d" "evcs w2 = evcs w"
    "valid d2 = False"
    by simp_all
  have del: "delete d w = (res, d', w')" using assms(2) True by (simp add: apply_op_def)
  have d': "d' = d2\<lparr>flow := None, evc := None\<rparr>"
    using del delete_result [OF rm] by simp
  have dfacts: "ident d' = i" "name d' = name d" "valid d' = False" "evc d' = None"
    using fr assms(1) by (simp_all add: d' descriptor_inv_def)
  show ?thesis
  proof (cases "evc d")
    case None
    then have "w' = w2" using del delete_result [OF rm] fr by simp
    then have ew: "evcs w' = evcs w" using fr by simp
    have "\<forall>r n. evc_maps (evcs w r) n \<noteq> Some i"
      using assms(1) None by (auto simp: descriptor_inv_def)
    then show ?thesis using dfacts ew by (simp add: descriptor_inv_def)
  next
    case (Some r)
    then have "w' = w2\<lparr>evcs := (evcs w2)(r := remove_evc_map (name d2) (ident d2) (evcs w2 r))\<rparr>"
      using del delete_result [OF rm] fr by simp
    then have ew: "evcs w' = (evcs w)(r := remove_evc_map (name d) (ident d) (evcs w r))"
      using fr by simp
    have only: "\<And>r' n. evc_maps (evcs w r') n = Some i \<Longrightarrow> n = name d \<and> r' = r"
      using assms(1) Some by (auto simp: descriptor_inv_def)
    have "\<And>r' n. evc_maps (evcs w' r') n \<noteq> Some i"
    proof
      fix r' n assume h: "evc_maps (evcs w' r') n = Some i"
      show False
      proof (cases "r' = r")
        case True
        then have "n \<noteq> name d \<and> evc_maps (evcs w r) n = Some i"
          using h ew by (auto simp: remove_evc_map_def split: if_splits)
        then show False using only by blast
      next
        case False
        then have "evc_maps (evcs w r') n = Some i" using h ew by simp
        then show False using only False by blast
      qed
    qed
    then show ?thesis using dfacts by (simp add: descriptor_inv_def)
  qed
qed

lemma run_ops_inv:
  "descriptor_inv i d w \<Longrightarrow> run_ops imp ops (d, w) = (d', w') \<Longrightarrow> descriptor_inv i d' w'"
proof (induction ops arbitrary: d w)
  case Nil
  then show ?case by simp
next
  case (Cons opn ops)
  obtain res d1 w1 where st: "apply_op imp opn d w = (res, d1, w1)"
    by (cases "apply_op imp opn d w") auto
  from Cons.prems(2) st have "run_ops imp ops (d1, w1) = (d', w')" by simp
  from Cons.IH [OF apply_op_inv [OF Cons.prems(1) st] this] show ?case .
qed

lemmas ex_defs = ex_externals_def ex_client_def ex_handler_def ex_flow_def ex_evc_def
  ex_world_def
lemmas init_defs = EVCMap_init_def EVCMap_blank_def decode_def decode_acl_def
  decode_gem_ids_def decode_tags_def add_evc_map_def needs_acl_support_def Let_def

lemma EVCMap_init_Inr: "\<exists>d w'. EVCMap_init imp i fl ev ingress w = Inr (d, w')"
proof -
  obtain res d1 w1 where dec: "decode imp (EVCMap_blank i fl ev ingress) w = (res, d1, w1)"
    by (cases "decode imp (EVCMap_blank i fl ev ingress) w") auto
  show ?thesis
  proof (cases "res = Inr True")
    case True
    then have "ev \<noteq> None"
      using decode_True [of imp "EVCMap_blank i fl ev ingress" w d1 w1] dec
      by (simp add: EVCMap_blank_def)
    then show ?thesis using dec True by (auto simp: EVCMap_init_def)
  next
    case False
    then show ?thesis using dec by (cases res) (auto simp: EVCMap_init_def)
  qed
qed

lemma delete_invalid: "valid (fst (snd (delete d w))) = False"
proof -
  obtain r2 d2 w2 where rm: "remove (d\<lparr>valid := False\<rparr>) w = (r2, d2, w2)"
    by (cases "remove (d\<lparr>valid := False\<rparr>) w") auto
  from remove_frame [OF rm] have "valid d2 = False" by simp
  then show ?thesis using delete_result [OF rm] by simp
qed

lemma run_ops_Cons:
  "run_ops imp (opn # ops) s = run_ops imp ops (snd (apply_op imp opn (fst s) (snd s)))"
  by (cases s) simp

lemma init_valid:
  assumes "EVCMap_init imp i fl ev ingress w = Inr (d, w')" and "valid d"
  shows "\<exists>d1 w1 r. decode imp (EVCMap_blank i fl ev ingress) w = (Inr True, d1, w1) \<and>
           d = d1\<lparr>valid := True\<rparr> \<and> ev = Some r \<and>
           w' = w1\<lparr>evcs := (evcs w1)(r := add_evc_map (name d1) (ident d1) (evcs w1 r))\<rparr>"
proof -
  obtain res d1 w1 where dec: "decode imp (EVCMap_blank i fl ev ingress) w = (res, d1, w1)"
    by (cases "decode imp (EVCMap_blank i fl ev ingress) w") auto
  have res: "res = Inr True"
    using assms dec by (cases res) (auto simp: EVCMap_init_def Let_def split: if_splits option.splits)
  then obtain r where r: "ev = Some r"
    using decode_True [of imp "EVCMap_blank i fl ev ingress" w d1 w1] dec
    by (auto simp: EVCMap_blank_def)
  show ?thesis using assms(1) dec res r by (simp add: EVCMap_init_def Let_def)
qed

lemma init_invalid:
  assumes "EVCMap_init imp i fl ev ingress w = Inr (d, w')" and "\<not> valid d"
  shows "\<exists>res d1. decode imp (EVCMap_blank i fl ev ingress) w = (res, d1, w') \<and>
           res \<noteq> Inr True \<and> d = d1\<lparr>valid := False, evc := None\<rparr>"
proof -
  obtain res d1 w1 where dec: "decode imp (EVCMap_blank i fl ev ingress) w = (res, d1, w1)"
    by (cases "decode imp (EVCMap_blank i fl ev ingress) w") auto
  show ?thesis
  proof (cases res)
    case (Inl e)
    then show ?thesis using assms dec by (simp add: EVCMap_init_def Let_def)
  next
    case (Inr v)
    then show ?thesis using assms dec
      by (cases v) (auto simp: EVCMap_init_def Let_def split: option.splits)
  qed
qed

lemma init_valid_iff:
  assumes "EVCMap_init imp i fl ev ingress w = Inr (d, w')"
  shows "valid d = (fst (decode imp (EVCMap_blank i fl ev ingress) w) = Inr True)"
proof (cases "valid d")
  case True
  then show ?thesis using init_valid [OF assms] by auto
next
  case False
  then show ?thesis using init_invalid [OF assms] by auto
qed

lemma decode_two_push:
  assumes "flow d = Some f" and "evc d = Some r" and "length (flow_push_vlan_id f) = 2"
    and "pop_vlan (flow_entry (evcs w r)) = 1"
  shows "fst (decode imp d w) \<noteq> Inr True"
proof (rule decode_cases [of d imp w])
  fix fl r'
  assume "flow d = Some fl" "evc d = Some r'"
    and dec: "decode imp d w =
        (fst (decode_tags fl r'
               (w\<lparr>evcs := (evcs w)(r' := (evcs w r')\<lparr>ce_vlan_preservation := False\<rparr>)\<rparr>)),
         (decode_gem_ids imp fl (is_pon_port (flow_handler fl) (flow_in_port fl))
            (decode_acl imp fl
               (d\<lparr>name := Some (''VOLTHA-'' @ str_int (flow_in_port fl) @ ''-'' @
                                 str_int (flow_id fl)),
                   evc_connection := EVC,
                   evc_name := Some (circuit_name (evcs w r')),
                   uni_port := get_port_name (flow_handler fl) (flow_in_port fl)\<rparr>)))
           \<lparr>c_tag := flow_inner_vid fl\<rparr>,
         snd (decode_tags fl r'
               (w\<lparr>evcs := (evcs w)(r' := (evcs w r')\<lparr>ce_vlan_preservation := False\<rparr>)\<rparr>)))"
  then have "fl = f" "r' = r" using assms by simp_all
  then show ?thesis using dec assms by (simp add: decode_tags_def)
qed (use assms in auto)

lemma apply_op_evc_name:
  assumes "valid d \<longrightarrow> evc_name d \<noteq> None" and "apply_op imp opn d w = (res, d', w')"
  shows "valid d' \<longrightarrow> evc_name d' \<noteq> None"
proof (cases "opn = Delete")
  case False
  from apply_op_frame [OF False assms(2)] assms(1) show ?thesis by simp
next
  case True
  then have "d' = fst (snd (delete d w))" using assms(2) by (simp add: apply_op_def)
  then show ?thesis using delete_invalid [of d w] by simp
qed

lemma run_ops_evc_name:
  "valid d \<longrightarrow> evc_name d \<noteq> None \<Longrightarrow> run_ops imp ops (d, w) = (d', w') \<Longrightarrow>
   valid d' \<longrightarrow> evc_name d' \<noteq> None"
proof (induction ops arbitrary: d w)
  case Nil
  then show ?case by simp
next
  case (Cons opn ops)
  obtain res d1 w1 where st: "apply_op imp opn d w = (res, d1, w1)"
    by (cases "apply_op imp opn d w") auto
  from Cons.prems(2) st have "run_ops imp ops (d1, w1) = (d', w')" by simp
  from Cons.IH [OF apply_op_evc_name [OF Cons.prems(1) st] this] show ?case .
qed

subsection \<open>Rendering of the circuit connection\<close>

text \<open>
  C8. In \<^verbatim>\<open>EvcConnection.xml\<close> the branch that returns \<^verbatim>\<open>'discard/'\<close> is never taken, whatever
  the argument. \<^verbatim>\<open>NO_EVC_CONNECTION\<close>, and \<^verbatim>\<open>None\<close>, which stands for it, raise
  \<^verbatim>\<open>ValueError\<close>; the tag \<^verbatim>\<open><no-evc-connection/>\<close> is returned exactly for \<^verbatim>\<open>DISCARD\<close>.
\<close>

theorem EvcConnection_xml_discard_unreachable:
  "EvcConnection_xml v \<noteq> Inr ''discard/'' \<and>
   EvcConnection_xml None = Inl ValueError \<and>
   EvcConnection_xml (Some NO_EVC_CONNECTION) = Inl ValueError \<and>
   (EvcConnection_xml v = Inr ''<no-evc-connection/>'') = (v = Some DISCARD)"
  by (cases v) (auto simp: EvcConnection_xml_def EvcConnection_DEFAULT_def Let_def)

theorem EvcConnection_xml_discard_unreachable_witness:
  "EvcConnection_xml (Some DISCARD) \<noteq> Inr ''discard/'' \<and>
   EvcConnection_xml (Some DISCARD) = Inr ''<no-evc-connection/>'' \<and>
   EvcConnection_xml None = Inl ValueError"
  using EvcConnection_xml_discard_unreachable [of "Some DISCARD"] by simp

subsection \<open>The constructor\<close>

text \<open>
  C5. The constructor always returns a descriptor: whatever \<^verbatim>\<open>_decode\<close> raises is caught, and
  the descriptor is valid exactly if \<^verbatim>\<open>_decode\<close> returned true. A flow that pushes two tags,
  paired with a circuit whose flow entry pops one, gives an invalid descriptor.
\<close>

theorem init_never_raises:
  "\<exists>d w'. EVCMap_init imp i fl ev ingress w = Inr (d, w') \<and>
     valid d = (fst (decode imp (EVCMap_blank i fl ev ingress) w) = Inr True) \<and>
     (fl = Some f \<and> ev = Some r \<and> length (flow_push_vlan_id f) = 2 \<and>
        pop_vlan (flow_entry (evcs w r)) = 1 \<longrightarrow> \<not> valid d)"
proof -
  obtain d w' where init: "EVCMap_init imp i fl ev ingress w = Inr (d, w')"
    using EVCMap_init_Inr [of imp i fl ev ingress w] by blast
  have v: "valid d = (fst (decode imp (EVCMap_blank i fl ev ingress) w) = Inr True)"
    using init_valid_iff [OF init] .
  have "\<not> valid d"
    if h: "fl = Some f \<and> ev = Some r \<and> length (flow_push_vlan_id f) = 2 \<and>
           pop_vlan (flow_entry (evcs w r)) = 1"
  proof -
    have "fst (decode imp (EVCMap_blank i fl ev ingress) w) \<noteq> Inr True"
      using h by (intro decode_two_push [of _ f r]) (simp_all add: EVCMap_blank_def)
    then show ?thesis using v by simp
  qed
  then show ?thesis using init v by blast
qed

theorem init_never_raises_witness:
  "length (flow_push_vlan_id (ex_flow\<lparr>flow_push_vlan_id := [100, 200]\<rparr>)) = 2 \<and>
   pop_vlan (flow_entry (evcs ex_world 0)) = 1 \<and>
   (\<exists>d w'. EVCMap_init ex_externals 7 (Some (ex_flow\<lparr>flow_push_vlan_id := [100, 200]\<rparr>))
              (Some 0) True ex_world = Inr (d, w') \<and> \<not> valid d)"
proof -
  have h: "length (flow_push_vlan_id (ex_flow\<lparr>flow_push_vlan_id := [100, 200]\<rparr>)) = 2 \<and>
           pop_vlan (flow_entry (evcs ex_world 0)) = 1"
    by (simp add: ex_defs)
  then show ?thesis
    using init_never_raises [of ex_externals 7 "Some (ex_flow\<lparr>flow_push_vlan_id := [100, 200]\<rparr>)"
        "Some 0" True ex_world "ex_flow\<lparr>flow_push_vlan_id := [100, 200]\<rparr>" 0]
    by auto
qed

text \<open>
  C7. After a successful decode \<open>needs_acl_support\<close> holds exactly if one of ether-type, IP
  protocol, destination IPv4 address, UDP destination port and UDP source port is set. The
  ether-type is the flow's; IP protocol and destination address are set only if the
  ether-type is IPv4, the UDP ports only if moreover the IP protocol is UDP; so the
  descriptor needs ACL support exactly if the flow has an ether-type.
\<close>

theorem decoded_acl_fields:
  assumes "EVCMap_init imp i fl ev ingress w = Inr (d, w')" and "valid d"
  shows "needs_acl_support d =
           (eth_type d \<noteq> None \<or> ip_protocol d \<noteq> None \<or> ipv4_dst d \<noteq> None \<or>
            udp_dst d \<noteq> None \<or> udp_src d \<noteq> None) \<and>
         (ip_protocol d \<noteq> None \<or> ipv4_dst d \<noteq> None \<longrightarrow>
            eth_type d = Some (EtherType_IPv4 imp)) \<and>
         (udp_dst d \<noteq> None \<or> udp_src d \<noteq> None \<longrightarrow>
            eth_type d = Some (EtherType_IPv4 imp) \<and>
            ip_protocol d = Some (IpProtocol_UDP imp)) \<and>
         (\<exists>f. fl = Some f \<and> eth_type d = flow_eth_type f \<and>
              needs_acl_support d = (flow_eth_type f \<noteq> None))"
proof -
  let ?b = "EVCMap_blank i fl ev ingress"
  from init_valid [OF assms] obtain d1 w1 r
    where dec: "decode imp ?b w = (Inr True, d1, w1)" and d: "d = d1\<lparr>valid := True\<rparr>"
    by blast
  have "\<exists>f. fl = Some f \<and> eth_type d1 = flow_eth_type f \<and>
          ip_protocol d1 = (if flow_eth_type f = Some (EtherType_IPv4 imp)
                            then flow_ip_protocol f else None) \<and>
          ipv4_dst d1 = (if flow_eth_type f = Some (EtherType_IPv4 imp)
                         then flow_ipv4_dst f else None) \<and>
          udp_dst d1 = (if flow_eth_type f = Some (EtherType_IPv4 imp) \<and>
                           flow_ip_protocol f = Some (IpProtocol_UDP imp)
                        then flow_udp_dst f else None) \<and>
          udp_src d1 = (if flow_eth_type f = Some (EtherType_IPv4 imp) \<and>
                           flow_ip_protocol f = Some (IpProtocol_UDP imp)
                        then flow_udp_src f else None)"
  proof (rule decode_cases [of ?b imp w])
    assume "decode imp ?b w = (Inl AttributeError, ?b, w)"
    then show ?thesis using dec by simp
  next
    fix f assume "fst (decode imp ?b w) = Inr False"
    then show ?thesis using dec by simp
  next
    fix f r' assume "fst (decode imp ?b w) = Inr False"
    then show ?thesis using dec by simp
  next
    fix f r'
    assume f: "flow ?b = Some f"
      and eq: "decode imp ?b w =
        (fst (decode_tags f r'
               (w\<lparr>evcs := (evcs w)(r' := (evcs w r')\<lparr>ce_vlan_preservation := False\<rparr>)\<rparr>)),
         (decode_gem_ids imp f (is_pon_port (flow_handler f) (flow_in_port f))
            (decode_acl imp f
               (?b\<lparr>name := Some (''VOLTHA-'' @ str_int (flow_in_port f) @ ''-'' @
                                 str_int (flow_id f)),
                   evc_connection := EVC,
                   evc_name := Some (circuit_name (evcs w r')),
                   uni_port := get_port_name (flow_handler f) (flow_in_port f)\<rparr>)))
           \<lparr>c_tag := flow_inner_vid f\<rparr>,
         snd (decode_tags f r'
               (w\<lparr>evcs := (evcs w)(r' := (evcs w r')\<lparr>ce_vlan_preservation := False\<rparr>)\<rparr>)))"
    have fl: "fl = Some f" using f by (simp add: EVCMap_blank_def)
    have "d1 = (decode_gem_ids imp f (is_pon_port (flow_handler f) (flow_in_port f))
            (decode_acl imp f
               (?b\<lparr>name := Some (''VOLTHA-'' @ str_int (flow_in_port f) @ ''-'' @
                                 str_int (flow_id f)),
                   evc_connection := EVC,
                   evc_name := Some (circuit_name (evcs w r')),
                   uni_port := get_port_name (flow_handler f) (flow_in_port f)\<rparr>)))
           \<lparr>c_tag := flow_inner_vid f\<rparr>"
      using dec eq by simp
    then show ?thesis using fl
      by (simp add: decode_gem_ids_fields decode_acl_eq EVCMap_blank_def)
  qed
  then obtain f where f: "fl = Some f" "eth_type d = flow_eth_type f"
      "ip_protocol d = (if flow_eth_type f = Some (EtherType_IPv4 imp)
                        then flow_ip_protocol f else None)"
      "ipv4_dst d = (if flow_eth_type f = Some (EtherType_IPv4 imp)
                     then flow_ipv4_dst f else None)"
      "udp_dst d = (if flow_eth_type f = Some (EtherType_IPv4 imp) \<and>
                       flow_ip_protocol f = Some (IpProtocol_UDP imp)
                    then flow_udp_dst f else None)"
      "udp_src d = (if flow_eth_type f = Some (EtherType_IPv4 imp) \<and>
                       flow_ip_protocol f = Some (IpProtocol_UDP imp)
                    then flow_udp_src f else None)"
    using d by auto
  have a: "needs_acl_support d =
           (eth_type d \<noteq> None \<or> ip_protocol d \<noteq> None \<or> ipv4_dst d \<noteq> None \<or>
            udp_dst d \<noteq> None \<or> udp_src d \<noteq> None)"
    by (simp add: needs_acl_support_def)
  have b: "ip_protocol d \<noteq> None \<or> ipv4_dst d \<noteq> None \<longrightarrow>
            eth_type d = Some (EtherType_IPv4 imp)"
    using f by (simp split: if_splits)
  have c: "udp_dst d \<noteq> None \<or> udp_src d \<noteq> None \<longrightarrow>
            eth_type d = Some (EtherType_IPv4 imp) \<and>
            ip_protocol d = Some (IpProtocol_UDP imp)"
    using f by (simp split: if_splits)
  have e: "needs_acl_support d = (flow_eth_type f \<noteq> None)"
    using f by (auto simp: needs_acl_support_def split: if_splits)
  show ?thesis using a b c e f(1,2) by blast
qed

theorem decoded_acl_fields_witness:
  "valid ex_dhcp_map \<and> needs_acl_support ex_dhcp_map \<and>
   eth_type ex_dhcp_map = Some 2048 \<and> ip_protocol ex_dhcp_map = Some 17 \<and>
   udp_dst ex_dhcp_map = Some 67"
proof -
  have init: "EVCMap_init ex_externals 8 (Some ex_dhcp_flow) (Some 0) False ex_world =
              Inr (ex_dhcp_map, ex_dhcp_world)"
    using EVCMap_init_Inr [of ex_externals 8 "Some ex_dhcp_flow" "Some 0" False ex_world]
    by (auto simp: ex_dhcp_map_def ex_dhcp_world_def)
  have v: "valid ex_dhcp_map \<and> udp_dst ex_dhcp_map = Some 67 \<and>
           EtherType_IPv4 ex_externals = 2048 \<and> IpProtocol_UDP ex_externals = 17"
    by (simp add: ex_dhcp_map_def ex_dhcp_flow_def ex_defs init_defs)
  then have "valid ex_dhcp_map" by simp
  from decoded_acl_fields [OF init this] v show ?thesis by auto
qed

text \<open>
  C10. A failed decode is not undone on the circuit. Once the ingress port is classified as
  PON or UNI, the circuit's CE-VLAN preservation is off, whatever follows. On the path with
  two pushed tags and one pop the circuit's tag manipulation and switching method are set to
  \<^verbatim>\<open>POP_OUT_TAG_ONLY\<close> and \<^verbatim>\<open>DOUBLE_TAGGED\<close> before the decoder raises: the descriptor ends
  invalid, with no circuit, the circuit's collection is as it was, and the writes stay.
\<close>

theorem decode_failure_leaves_circuit_writes:
  assumes "is_pon_port (flow_handler f) (flow_in_port f) \<or>
           is_uni_port (flow_handler f) (flow_in_port f)"
  shows "\<exists>d w'. EVCMap_init imp i (Some f) (Some r) ingress w = Inr (d, w') \<and>
           ce_vlan_preservation (evcs w' r) = False \<and>
           (length (flow_push_vlan_id f) = 2 \<and> pop_vlan (flow_entry (evcs w r)) = 1 \<longrightarrow>
              \<not> valid d \<and> evc d = None \<and>
              evc_maps (evcs w' r) = evc_maps (evcs w r) \<and>
              men_to_uni_tag_manipulation (evcs w' r) = POP_OUT_TAG_ONLY \<and>
              switching_method (evcs w' r) = DOUBLE_TAGGED)"
proof -
  let ?b = "EVCMap_blank i (Some f) (Some r) ingress"
  let ?w1 = "w\<lparr>evcs := (evcs w)(r := (evcs w r)\<lparr>ce_vlan_preservation := False\<rparr>)\<rparr>"
  obtain d w' where init: "EVCMap_init imp i (Some f) (Some r) ingress w = Inr (d, w')"
    using EVCMap_init_Inr [of imp i "Some f" "Some r" ingress w] by blast
  have w1: "snd (snd (decode imp ?b w)) = snd (decode_tags f r ?w1)"
    and res: "fst (decode imp ?b w) = fst (decode_tags f r ?w1)"
    using assms by (simp_all add: decode_def Let_def EVCMap_blank_def case_prod_beta)
  have ce1: "ce_vlan_preservation (evcs (snd (snd (decode imp ?b w))) r) = False"
    by (simp add: w1 decode_tags_frame)
  have ce: "ce_vlan_preservation (evcs w' r) = False"
  proof (cases "valid d")
    case True
    from init_valid [OF init True] ce1 show ?thesis
      by (auto simp: add_evc_map_def)
  next
    case False
    from init_invalid [OF init False] ce1 show ?thesis by auto
  qed
  have two: "\<not> valid d \<and> evc d = None \<and> evc_maps (evcs w' r) = evc_maps (evcs w r) \<and>
             men_to_uni_tag_manipulation (evcs w' r) = POP_OUT_TAG_ONLY \<and>
             switching_method (evcs w' r) = DOUBLE_TAGGED"
    if h: "length (flow_push_vlan_id f) = 2 \<and> pop_vlan (flow_entry (evcs w r)) = 1"
  proof -
    have t: "decode_tags f r ?w1 =
               (Inl NotImplementedError,
                ?w1\<lparr>evcs := (evcs ?w1)(r := (evcs ?w1 r)
                       \<lparr>men_to_uni_tag_manipulation := POP_OUT_TAG_ONLY,
                        switching_method := DOUBLE_TAGGED\<rparr>)\<rparr>)"
      using h by (intro decode_tags_two) simp_all
    have nv: "\<not> valid d" using init_valid_iff [OF init] res t by simp
    from init_invalid [OF init nv] obtain res' d1
      where dec: "decode imp ?b w = (res', d1, w')" and d: "d = d1\<lparr>valid := False, evc := None\<rparr>"
      by blast
    have "w' = snd (decode_tags f r ?w1)" using dec w1 by simp
    then show ?thesis using nv d t by simp
  qed
  show ?thesis using init ce two by blast
qed

theorem decode_failure_leaves_circuit_writes_witness:
  "ce_vlan_preservation (evcs ex_world 0) \<and>
   men_to_uni_tag_manipulation (evcs ex_world 0) = SYMMETRIC \<and>
   switching_method (evcs ex_world 0) = SINGLE_TAGGED \<and>
   (\<exists>d w'. EVCMap_init ex_externals 7 (Some (ex_flow\<lparr>flow_push_vlan_id := [100, 200]\<rparr>))
              (Some 0) True ex_world = Inr (d, w') \<and>
            \<not> valid d \<and> evc d = None \<and>
            \<not> ce_vlan_preservation (evcs w' 0) \<and>
            men_to_uni_tag_manipulation (evcs w' 0) = POP_OUT_TAG_ONLY \<and>
            switching_method (evcs w' 0) = DOUBLE_TAGGED)"
proof -
  have h: "is_pon_port (flow_handler (ex_flow\<lparr>flow_push_vlan_id := [100, 200]\<rparr>))
             (flow_in_port (ex_flow\<lparr>flow_push_vlan_id := [100, 200]\<rparr>)) \<or>
           is_uni_port (flow_handler (ex_flow\<lparr>flow_push_vlan_id := [100, 200]\<rparr>))
             (flow_in_port (ex_flow\<lparr>flow_push_vlan_id := [100, 200]\<rparr>))"
    by (simp add: ex_defs)
  have b: "ce_vlan_preservation (evcs ex_world 0) \<and>
           men_to_uni_tag_manipulation (evcs ex_world 0) = SYMMETRIC \<and>
           switching_method (evcs ex_world 0) = SINGLE_TAGGED \<and>
           length (flow_push_vlan_id (ex_flow\<lparr>flow_push_vlan_id := [100, 200]\<rparr>)) = 2 \<and>
           pop_vlan (flow_entry (evcs ex_world 0)) = 1"
    by (simp add: ex_defs)
  show ?thesis
    using b decode_failure_leaves_circuit_writes [OF h, of ex_externals 7 0 True ex_world]
    by auto
qed

subsection \<open>Registration and validity\<close>

text \<open>
  C6. After construction, and after any sequence of lifecycle operations on the descriptor,
  the descriptor is in the collection of a circuit exactly if it is valid and that circuit
  is the one it refers to: a descriptor that decoded is registered, one that did not is in
  no collection and refers to no circuit, and \<^verbatim>\<open>delete\<close>, which clears \<open>valid\<close>, takes it out
  of the collection. No other operation changes \<open>valid\<close>. The object under construction
  is new: its identity is in no collection beforehand.
\<close>

theorem registered_iff_valid:
  assumes fresh: "\<forall>r n. evc_maps (evcs w r) n \<noteq> Some i"
    and init: "EVCMap_init imp i fl ev ingress w = Inr (d0, w0)"
    and run: "run_ops imp ops (d0, w0) = (d, w')"
  shows "is_registered (evcs w' r) d = (valid d \<and> evc d = Some r) \<and>
         (opn \<noteq> Delete \<longrightarrow> valid (fst (snd (apply_op imp opn d w'))) = valid d)"
proof -
  have keep: "opn \<noteq> Delete \<longrightarrow> valid (fst (snd (apply_op imp opn d w'))) = valid d"
  proof
    assume nd: "opn \<noteq> Delete"
    obtain res d1 w1 where st: "apply_op imp opn d w' = (res, d1, w1)"
      by (cases "apply_op imp opn d w'") auto
    from apply_op_frame [OF nd st] st
    show "valid (fst (snd (apply_op imp opn d w'))) = valid d" by simp
  qed
  have iv: "descriptor_inv i d w'" using run_ops_inv [OF init_inv [OF fresh init] run] .
  have id: "ident d = i" using iv by (simp add: descriptor_inv_def)
  have only: "\<And>n. evc_maps (evcs w' r) n = Some i \<Longrightarrow> n = name d \<and> valid d \<and> evc d = Some r"
    using iv unfolding descriptor_inv_def by blast
  have there: "valid d \<Longrightarrow> \<exists>r'. evc d = Some r' \<and> evc_maps (evcs w' r') (name d) = Some i"
    using iv unfolding descriptor_inv_def by blast
  have "is_registered (evcs w' r) d = (valid d \<and> evc d = Some r)"
  proof
    assume "is_registered (evcs w' r) d"
    then have "evc_maps (evcs w' r) (name d) = Some i" by (simp add: is_registered_def id)
    from only [OF this] show "valid d \<and> evc d = Some r" by simp
  next
    assume h: "valid d \<and> evc d = Some r"
    then obtain r' where "evc d = Some r'" "evc_maps (evcs w' r') (name d) = Some i"
      using there by blast
    then show "is_registered (evcs w' r) d" using h by (simp add: is_registered_def id)
  qed
  then show ?thesis using keep by simp
qed

theorem registered_iff_valid_witness:
  "(\<forall>r n. evc_maps (evcs ex_world r) n \<noteq> Some 7) \<and>
   is_registered (evcs ex_map_world 0) ex_map \<and> valid ex_map \<and> evc ex_map = Some 0 \<and>
   \<not> is_registered (evcs (snd (run_ops ex_externals [Install, Delete] (ex_map, ex_map_world))) 0)
        (fst (run_ops ex_externals [Install, Delete] (ex_map, ex_map_world)))"
proof -
  have fresh: "\<forall>r n. evc_maps (evcs ex_world r) n \<noteq> Some 7"
    by (simp add: ex_defs)
  have init: "EVCMap_init ex_externals 7 (Some ex_flow) (Some 0) True ex_world =
              Inr (ex_map, ex_map_world)"
    using EVCMap_init_Inr [of ex_externals 7 "Some ex_flow" "Some 0" True ex_world]
    by (auto simp: ex_map_def ex_map_world_def)
  have v0: "valid ex_map \<and> evc ex_map = Some 0"
    by (simp add: ex_map_def ex_defs init_defs)
  have r0: "run_ops ex_externals [] (ex_map, ex_map_world) = (ex_map, ex_map_world)"
    by simp
  obtain d w where r1: "run_ops ex_externals [Install, Delete] (ex_map, ex_map_world) = (d, w)"
    by (cases "run_ops ex_externals [Install, Delete] (ex_map, ex_map_world)")
  have "(d, w) = snd (delete (fst (snd (install ex_externals ex_map ex_map_world)))
                          (snd (snd (install ex_externals ex_map ex_map_world))))"
    using r1 by (simp add: run_ops_Cons apply_op_def)
  then have v1: "\<not> valid d"
    using delete_invalid [of "fst (snd (install ex_externals ex_map ex_map_world))"
                            "snd (snd (install ex_externals ex_map ex_map_world))"]
    by (metis fst_conv)
  show ?thesis
    using fresh v0 v1 r1
      registered_iff_valid [OF fresh init r0, where r = 0 and opn = Delete]
      registered_iff_valid [OF fresh init r1, where r = 0 and opn = Delete]
    by simp
qed

subsection \<open>Deletion\<close>

text \<open>
  C1. \<^verbatim>\<open>delete\<close> never raises. It clears \<open>valid\<close> first and calls \<^verbatim>\<open>remove\<close> on the descriptor so
  marked; whatever \<^verbatim>\<open>remove\<close> does (returns, or raises, installed before or not), the
  descriptor ends without flow and without circuit, and the collection of the circuit it
  referred to no longer holds it. The result is what \<^verbatim>\<open>remove\<close> returned, or false if it raised.
\<close>

theorem delete_always_detaches:
  "\<exists>b d' w'. delete d w = (Inr b, d', w') \<and>
     \<not> valid d' \<and> flow d' = None \<and> evc d' = None \<and>
     (\<forall>r. evc d = Some r \<longrightarrow>
        \<not> is_registered (evcs w' r) d' \<and> evc_maps (evcs w' r) (name d) = None) \<and>
     b = (case fst (remove (d\<lparr>valid := False\<rparr>) w) of Inl e \<Rightarrow> False | Inr x \<Rightarrow> x) \<and>
     installed d' = installed (fst (snd (remove (d\<lparr>valid := False\<rparr>) w))) \<and>
     sent w' = sent (snd (snd (remove (d\<lparr>valid := False\<rparr>) w)))"
proof -
  obtain r2 d2 w2 where rm: "remove (d\<lparr>valid := False\<rparr>) w = (r2, d2, w2)"
    by (cases "remove (d\<lparr>valid := False\<rparr>) w") auto
  from remove_frame [OF rm]
  have fr: "ident d2 = ident d" "name d2 = name d" "evc d2 = evc d" "evcs w2 = evcs w"
    "valid d2 = False"
    by simp_all
  let ?w3 = "case evc d2 of None \<Rightarrow> w2
             | Some r \<Rightarrow> w2\<lparr>evcs := (evcs w2)
                               (r := remove_evc_map (name d2) (ident d2) (evcs w2 r))\<rparr>"
  have del: "delete d w =
               (Inr (case r2 of Inl e \<Rightarrow> False | Inr b \<Rightarrow> b), d2\<lparr>flow := None, evc := None\<rparr>, ?w3)"
    using delete_result [OF rm] .
  have reg: "\<not> is_registered (evcs ?w3 r) (d2\<lparr>flow := None, evc := None\<rparr>) \<and>
             evc_maps (evcs ?w3 r) (name d) = None" if "evc d = Some r" for r
    using that fr by (simp add: is_registered_def remove_evc_map_def)
  have snt: "sent ?w3 = sent w2" by (simp split: option.splits)
  show ?thesis using del rm fr reg snt by simp
qed

theorem delete_always_detaches_witness:
  "is_registered (evcs ex_map_world 0) (ex_map\<lparr>installed := True, flow := None\<rparr>) \<and>
   fst (remove (ex_map\<lparr>installed := True, flow := None, valid := False\<rparr>) ex_map_world) =
     Inl AttributeError \<and>
   (\<exists>d' w'. delete (ex_map\<lparr>installed := True, flow := None\<rparr>) ex_map_world = (Inr False, d', w') \<and>
      \<not> valid d' \<and> evc d' = None \<and> \<not> is_registered (evcs w' 0) d')"
proof -
  have a: "is_registered (evcs ex_map_world 0) (ex_map\<lparr>installed := True, flow := None\<rparr>) \<and>
           evc (ex_map\<lparr>installed := True, flow := None\<rparr>) = Some 0 \<and>
           \<not> needs_acl_support (ex_map\<lparr>installed := True, flow := None\<rparr>)"
    by (simp add: ex_map_def ex_map_world_def ex_defs init_defs is_registered_def)
  then have b: "fst (remove (ex_map\<lparr>installed := True, flow := None, valid := False\<rparr>) ex_map_world) =
           Inl AttributeError"
    by (simp add: remove_def edit_config_def Let_def needs_acl_support_def)
  show ?thesis
    using a b delete_always_detaches [of "ex_map\<lparr>installed := True, flow := None\<rparr>" ex_map_world]
    by auto
qed

subsection \<open>Enabling and disabling\<close>

text \<open>
  C9. For an installed descriptor that needs no ACL support: when \<^verbatim>\<open>enable\<close> (called while
  disabled) gets a response from the device, the enabled flag becomes the response's
  success, true on success and false on a failed response; when \<^verbatim>\<open>disable\<close> (called while
  enabled) gets a response, the flag becomes the negation of the response's success, false
  on success and still true on a failed response.
\<close>

theorem enable_disable_response:
  assumes "installed d" and "\<not> needs_acl_support d" and "flow d = Some fl"
  shows "(\<not> enabled d \<and>
          netconf_client (flow_handler fl) (sent w)
            \<lparr>xml = xml_header None @ ''<name>'' @ fmt_str (name d) @ ''</name>'' @
                   ''<enabled>true</enabled>'' @ xml_trailer,
             default_operation = None, lock_timeout = 30\<rparr> = Inr res \<longrightarrow>
            enabled (fst (snd (enable d w))) = ok res \<and>
            fst (enable d w) = Inr (ok res)) \<and>
         (enabled d \<and>
          netconf_client (flow_handler fl) (sent w)
            \<lparr>xml = xml_header None @ ''<name>'' @ fmt_str (name d) @ ''</name>'' @
                   ''<enabled>false</enabled>'' @ xml_trailer,
             default_operation = None, lock_timeout = 30\<rparr> = Inr res \<longrightarrow>
            enabled (fst (snd (disable d w))) = (\<not> ok res) \<and>
            fst (disable d w) = Inr (ok res))"
  using assms by (simp add: enable_def disable_def edit_config_def Let_def)

theorem enable_disable_response_witness:
  "enabled (fst (snd (enable (ex_map\<lparr>installed := True, enabled := False\<rparr>) ex_map_world))) = False \<and>
   enabled (fst (snd (disable (ex_map\<lparr>installed := True\<rparr>) ex_map_world))) = True"
proof -
  have a: "\<not> needs_acl_support ex_map \<and> flow ex_map = Some ex_flow \<and> enabled ex_map \<and>
           sent ex_map_world = []"
    by (simp add: ex_map_def ex_map_world_def ex_defs init_defs)
  have na: "\<not> needs_acl_support (ex_map\<lparr>installed := True, enabled := False\<rparr>)"
       "\<not> needs_acl_support (ex_map\<lparr>installed := True\<rparr>)"
    using a by (simp_all add: needs_acl_support_def)
  have c: "netconf_client (flow_handler ex_flow) [] q = Inr \<lparr>ok = False, error = ''rejected''\<rparr>" for q
    by (simp add: ex_defs)
  show ?thesis
    using a c
      enable_disable_response [of "ex_map\<lparr>installed := True, enabled := False\<rparr>" ex_flow
        ex_map_world "\<lparr>ok = False, error = ''rejected''\<rparr>", OF _ na(1)]
      enable_disable_response [of "ex_map\<lparr>installed := True\<rparr>" ex_flow
        ex_map_world "\<lparr>ok = False, error = ''rejected''\<rparr>", OF _ na(2)]
    by simp
qed

subsection \<open>Installation\<close>

text \<open>
  C4, as the code has it. For a descriptor that the constructor built and lifecycle
  operations brought to a state that is valid, not installed, without a channel table and
  in need of ACL support, \<^verbatim>\<open>install\<close> returns true, sets \<open>installed\<close>, submits no request, and
  leaves every other field, the status among them, as it was.
\<close>

theorem install_acl_placeholder:
  assumes "EVCMap_init imp i fl ev ingress w0 = Inr (d0, w1)"
    and "run_ops imp ops (d0, w1) = (d, w)"
    and "valid d" and "\<not> installed d" and "gem_ids d = None" and "needs_acl_support d"
  shows "install imp d w = (Inr True, d\<lparr>installed := True\<rparr>, w)"
proof -
  have "valid d0 \<longrightarrow> evc_name d0 \<noteq> None"
    using init_valid [OF assms(1)] decode_True by fastforce
  from run_ops_evc_name [OF this assms(2)] assms(3)
  obtain n where "evc_name d = Some n" by auto
  then show ?thesis using assms(3-6) by (simp add: install_def Let_def)
qed

theorem install_acl_placeholder_witness:
  "valid ex_dhcp_map \<and> \<not> installed ex_dhcp_map \<and> gem_ids ex_dhcp_map = None \<and>
   needs_acl_support ex_dhcp_map \<and>
   install ex_externals ex_dhcp_map ex_dhcp_world =
     (Inr True, ex_dhcp_map\<lparr>installed := True\<rparr>, ex_dhcp_world)"
proof -
  have init: "EVCMap_init ex_externals 8 (Some ex_dhcp_flow) (Some 0) False ex_world =
              Inr (ex_dhcp_map, ex_dhcp_world)"
    using EVCMap_init_Inr [of ex_externals 8 "Some ex_dhcp_flow" "Some 0" False ex_world]
    by (auto simp: ex_dhcp_map_def ex_dhcp_world_def)
  have run: "run_ops ex_externals [] (ex_dhcp_map, ex_dhcp_world) = (ex_dhcp_map, ex_dhcp_world)"
    by simp
  have v: "valid ex_dhcp_map" "\<not> installed ex_dhcp_map" "gem_ids ex_dhcp_map = None"
    "needs_acl_support ex_dhcp_map"
    by (simp_all add: ex_dhcp_map_def ex_dhcp_flow_def ex_defs init_defs)
  from install_acl_placeholder [OF init run v] v show ?thesis by simp
qed

text \<open>
  C4, as stated, fails: the descriptor built for the DHCP flow is valid, not installed,
  without channel table and in need of ACL support; \<^verbatim>\<open>install\<close> sets \<open>installed\<close> and submits
  nothing, but the status is still \<^verbatim>\<open>None\<close>, not the empty string.
\<close>

theorem install_acl_status_counterexample:
  "valid ex_dhcp_map \<and> \<not> installed ex_dhcp_map \<and> gem_ids ex_dhcp_map = None \<and>
   needs_acl_support ex_dhcp_map \<and>
   installed (fst (snd (install ex_externals ex_dhcp_map ex_dhcp_world))) \<and>
   sent (snd (snd (install ex_externals ex_dhcp_map ex_dhcp_world))) = sent ex_dhcp_world \<and>
   status_message (fst (snd (install ex_externals ex_dhcp_map ex_dhcp_world))) = None \<and>
   status_message (fst (snd (install ex_externals ex_dhcp_map ex_dhcp_world))) \<noteq> Some ''''"
proof -
  have v: "valid ex_dhcp_map \<and> \<not> installed ex_dhcp_map \<and> gem_ids ex_dhcp_map = None \<and>
    needs_acl_support ex_dhcp_map \<and> evc_name ex_dhcp_map \<noteq> None \<and>
    status_message ex_dhcp_map = None"
    by (simp add: ex_dhcp_map_def ex_dhcp_flow_def ex_defs init_defs)
  then obtain n where "evc_name ex_dhcp_map = Some n" by auto
  then have "install ex_externals ex_dhcp_map ex_dhcp_world =
               (Inr True, ex_dhcp_map\<lparr>installed := True\<rparr>, ex_dhcp_world)"
    using v by (simp add: install_def Let_def)
  then show ?thesis using v by simp
qed

subsection \<open>Installation on all units of a shared port\<close>

text \<open>
  C2 at a concrete input. The descriptor is valid and not installed; its channel table has
  the units 1 and 2. \<^verbatim>\<open>pon_install\<close> submits one request for each; the device rejects the
  first and accepts the second. The result is true and \<open>installed\<close> is true: the flag holds
  the last unit's answer, not the conjunction of the answers.
\<close>

theorem pon_install_keeps_last_answer:
  "valid ex_pon_map \<and> \<not> installed ex_pon_map \<and>
   gem_ids ex_pon_map = Some (Gem_dict [(1, [2176]), (2, [2177, 2178])]) \<and>
   length (sent (snd (snd (pon_install ex_externals ex_pon_map ex_pon_world)))) = 2 \<and>
   ex_client [] (sent (snd (snd (pon_install ex_externals ex_pon_map ex_pon_world))) ! 0) =
     Inr \<lparr>ok = False, error = ''rejected''\<rparr> \<and>
   ex_client [sent (snd (snd (pon_install ex_externals ex_pon_map ex_pon_world))) ! 0]
     (sent (snd (snd (pon_install ex_externals ex_pon_map ex_pon_world))) ! 1) =
     Inr \<lparr>ok = True, error = ''''\<rparr> \<and>
   installed (fst (snd (pon_install ex_externals ex_pon_map ex_pon_world))) \<and>
   fst (pon_install ex_externals ex_pon_map ex_pon_world) = Inr True"
proof -
  have v: "valid ex_pon_map \<and> \<not> installed ex_pon_map \<and>
           gem_ids ex_pon_map = Some (Gem_dict [(1, [2176]), (2, [2177, 2178])]) \<and>
           evc_name ex_pon_map = Some ''VOLTHA-2-77'' \<and> flow ex_pon_map = Some ex_pon_flow \<and>
           sent ex_pon_world = []"
    by (simp add: ex_pon_map_def ex_pon_world_def ex_pon_flow_def create_ingress_map_def
                  ex_defs init_defs)
  have c: "netconf_client (flow_handler ex_pon_flow) log q = ex_client log q" for log q
    by (simp add: ex_pon_flow_def ex_flow_def ex_handler_def)
  have x: "\<exists>x. pon_install_xml ex_externals d onu gems = Inr x"
    if "evc_name d = Some ''VOLTHA-2-77''" for d onu gems
  proof -
    have g: "\<exists>x. pon_install_gems ex_externals d onu gems acc = Inr x" for acc
      using that by (induction gems arbitrary: acc) simp_all
    have "\<exists>x. (case pon_install_gems ex_externals d onu gems acc of
                  Inl e \<Rightarrow> Inl e | Inr y \<Rightarrow> Inr (y @ t)) = Inr x" for acc t
      using g [of acc] by auto
    then show ?thesis unfolding pon_install_xml_def by blast
  qed
  let ?d1 = "ex_pon_map\<lparr>installed := True\<rparr>"
  obtain x1 where x1: "pon_install_xml ex_externals ?d1 1 [2176] = Inr x1"
    using x [of ?d1 1 "[2176]"] v by auto
  let ?q1 = "\<lparr>xml = x1, default_operation = None, lock_timeout = 30\<rparr>"
  let ?d2 = "?d1\<lparr>installed := False, status_message := Some ''rejected''\<rparr>"
  obtain x2 where x2: "pon_install_xml ex_externals ?d2 2 [2177, 2178] = Inr x2"
    using x [of ?d2 2 "[2177, 2178]"] v by auto
  let ?q2 = "\<lparr>xml = x2, default_operation = None, lock_timeout = 30\<rparr>"
  have s1: "edit_config ?d1 ex_pon_world ?q1 =
              (Inr \<lparr>ok = False, error = ''rejected''\<rparr>, ex_pon_world\<lparr>sent := [?q1]\<rparr>)"
    using v c by (simp add: edit_config_def ex_client_def)
  have s2: "edit_config ?d2 (ex_pon_world\<lparr>sent := [?q1]\<rparr>) ?q2 =
              (Inr \<lparr>ok = True, error = ''''\<rparr>, ex_pon_world\<lparr>sent := [?q1, ?q2]\<rparr>)"
    using v c by (simp add: edit_config_def ex_client_def)
  have onus: "pon_install_onus ex_externals [(1, [2176]), (2, [2177, 2178])] ?d1 ex_pon_world =
          (Inr (), ?d2\<lparr>installed := True, status_message := Some ''''\<rparr>,
           ex_pon_world\<lparr>sent := [?q1, ?q2]\<rparr>)"
    using x1 x2 s1 s2 by simp
  have "pon_install ex_externals ex_pon_map ex_pon_world =
          (Inr True, ?d2\<lparr>installed := True, status_message := Some ''''\<rparr>,
           ex_pon_world\<lparr>sent := [?q1, ?q2]\<rparr>)"
    using v onus by (simp add: pon_install_def Let_def)
  then show ?thesis using v by (simp add: ex_client_def)
qed

subsection \<open>Bulk removal\<close>

text \<open>
  Of a list of entries, \<^verbatim>\<open>do_delete\<close> keeps the names that match the pattern, and only those.
\<close>

lemma names_of_list_match: "n \<in> set (names_of_list p es) \<Longrightarrow> p n"
  by (auto simp: names_of_list_def split: option.splits if_splits)

text \<open>
  With two names the delete document closes its wrapper after the first name: the trailer
  is appended once per name.
\<close>

lemma del_xml_names_two:
  "del_xml_names [a, b] h =
     h @ ''<name>'' @ a @ ''</name>'' @ xml_trailer @ ''<name>'' @ b @ ''</name>'' @ xml_trailer"
  by simp

text \<open>
  C3 at a concrete input. The device answers the query with a single entry, named
  \<^verbatim>\<open>mgmt-map\<close>, which the default pattern does not match. \<^verbatim>\<open>remove_all\<close> submits a delete
  request that names it: the branch for a single entry never consults the pattern.
\<close>

theorem remove_all_single_entry_unfiltered:
  "\<not> EVC_MAP_NAME_REGEX_ALL ''mgmt-map'' \<and>
   remove_all ex_client
     (Inr \<lparr>reply_ok = True, data = Inr (Some (Some (Entry_dict [(''name'', ''mgmt-map'')])))\<rparr>)
     EVC_MAP_NAME_REGEX_ALL [] =
   (Inr No_value,
    [\<lparr>xml = xml_header (Some ''delete'') @ ''<name>mgmt-map</name>'' @ xml_trailer,
      default_operation = None, lock_timeout = 30\<rparr>])"
  by (simp add: EVC_MAP_NAME_REGEX_ALL_def remove_all_def do_delete_def Let_def
                delete_complete_def request_failed_def ex_client_def)

end
